theory Spec2Isabelle
  imports Complex_Main "HOL-Library.Char_ord" "HOL-Library.List_Lexorder" "HOL-Library.Multiset"
begin

section \<open>Python values used by the log statistics\<close>

text \<open>
  The program is \<^verbatim>\<open>src/logs_classes/hw4.py\<close>. A Python \<^verbatim>\<open>str\<close> is modelled as a
  \<^typ>\<open>string\<close>, one \<^typ>\<open>char\<close> per code point, so the model covers the lines whose code
  points are below 256. On that range the order of \<^typ>\<open>char\<close> is the order of the code
  points, and the lexicographic order of lists is Python's order of strings.
  Python's \<^verbatim>\<open>int\<close> is \<^typ>\<open>int\<close>.
\<close>

datatype error = ValueError | OverflowError | ZeroDivisionError

record date =
  year :: int
  month :: int
  day :: int

text \<open>The values a statistic reports: \<^verbatim>\<open>None\<close>, a string, or a dictionary keyed by a date.\<close>

datatype pyval = PyNone | PyStr string | PyDict "(date \<times> pyval) list"

subsection \<open>Dictionaries\<close>

text \<open>
  A \<^verbatim>\<open>dict\<close> keeps its keys in insertion order, and \<^verbatim>\<open>Page.max\<close> depends on that order,
  so a dictionary is an association list: the keys in insertion order, each key once.
  Storing under a key that is present replaces the value in place; a new key goes to
  the end.
\<close>

type_synonym ('k, 'v) dict = "('k \<times> 'v) list"

definition dict_ok :: "('k, 'v) dict \<Rightarrow> bool" where
  "dict_ok d = distinct (map fst d)"

fun dict_set :: "('k, 'v) dict \<Rightarrow> 'k \<Rightarrow> 'v \<Rightarrow> ('k, 'v) dict" where
  "dict_set [] k v = [(k, v)]"
| "dict_set ((k', v') # d) k v = (if k' = k then (k, v) # d else (k', v') # dict_set d k v)"

text \<open>
  \<^verbatim>\<open>defaultdict.__getitem__\<close>: a missing key is first inserted with the default value.
  The result is the value and the dictionary after the lookup.
\<close>

definition defaultdict_get :: "'v \<Rightarrow> ('k, 'v) dict \<Rightarrow> 'k \<Rightarrow> 'v \<times> ('k, 'v) dict" where
  "defaultdict_get dflt d k =
     (case map_of d k of Some v \<Rightarrow> (v, d) | None \<Rightarrow> (dflt, d @ [(k, dflt)]))"

text \<open>\<^verbatim>\<open>d[k] += 1\<close> on a \<^verbatim>\<open>defaultdict(int)\<close>: read (inserting 0), add, store.\<close>

definition counter_inc :: "('k, int) dict \<Rightarrow> 'k \<Rightarrow> ('k, int) dict" where
  "counter_inc d k = (let (v, d') = defaultdict_get 0 d k in dict_set d' k (v + 1))"

subsection \<open>Floats\<close>

text \<open>
  A finite Python \<^verbatim>\<open>float\<close> is modelled by the rational number it denotes (the two zeros
  are one value; they compare equal). \<open>float_round\<close> is IEEE 754 binary64 rounding to
  nearest, ties to even, of an exact result: 53 significant bits, subnormals below
  \<open>2^-1022\<close>, and \<open>None\<close> for a result that rounds to an infinity.
\<close>

function bit_length :: "int \<Rightarrow> nat" where
  "bit_length n = (if n \<le> 0 then 0 else Suc (bit_length (n div 2)))"
  by pat_completeness auto
termination
  by (relation "measure nat") auto

declare bit_length.simps [simp del]

definition pow2 :: "int \<Rightarrow> rat" where
  "pow2 e = (if 0 \<le> e then 2 ^ nat e else 1 / 2 ^ nat (- e))"

definition round_half_even :: "rat \<Rightarrow> int" where
  "round_half_even x =
     (let f = \<lfloor>x\<rfloor>; d = x - of_int f
      in if d < 1 / 2 then f else if 1 / 2 < d then f + 1 else if even f then f else f + 1)"

text \<open>\<open>float_exponent x\<close> is \<open>\<lfloor>log\<^sub>2 \<bar>x\<bar>\<rfloor>\<close> for \<open>x \<noteq> 0\<close>.\<close>

definition float_exponent :: "rat \<Rightarrow> int" where
  "float_exponent x =
     (let (p, q) = quotient_of \<bar>x\<bar>;
          e = int (bit_length p) - int (bit_length q)
      in if pow2 e \<le> \<bar>x\<bar> then e else e - 1)"

definition float_round :: "rat \<Rightarrow> rat option" where
  "float_round x =
     (if x = 0 then Some 0
      else let q = max (float_exponent x - 52) (- 1074);
               m = round_half_even (\<bar>x\<bar> / pow2 q);
               r = of_int m * pow2 q
           in if pow2 1024 \<le> r then None else Some (sgn x * r))"

text \<open>
  \<^verbatim>\<open>a / b\<close> on two \<^verbatim>\<open>int\<close>s: the correctly rounded quotient, \<^verbatim>\<open>ZeroDivisionError\<close> for a zero
  divisor, \<^verbatim>\<open>OverflowError\<close> when the quotient is too large for a float.
\<close>

definition int_true_div :: "int \<Rightarrow> int \<Rightarrow> error + rat" where
  "int_true_div a b =
     (if b = 0 then Inl ZeroDivisionError
      else case float_round (of_int a / of_int b) of
             None \<Rightarrow> Inl OverflowError
           | Some r \<Rightarrow> Inr r)"

text \<open>The float \<^verbatim>\<open>0.1**10\<close>, which is \<open>0x1.b7cdfd9d7bdbfp-34\<close>.\<close>

definition tolerance :: rat where
  "tolerance = 7737125245533631 / 2 ^ 86"

text \<open>
  \<^verbatim>\<open>abs(a - b) < 0.1**10\<close> on two finite floats: the difference is rounded, an infinite
  difference is not below the tolerance.
\<close>

definition float_close :: "rat \<Rightarrow> rat \<Rightarrow> bool" where
  "float_close a b = (case float_round (a - b) of None \<Rightarrow> False | Some d \<Rightarrow> \<bar>d\<bar> < tolerance)"

section \<open>The statistics\<close>

subsection \<open>\<^verbatim>\<open>lexicographic_min\<close>\<close>

text \<open>
  The loop \<^verbatim>\<open>for key in sorted(data.keys()): if data[key] == max_value: return key\<close>.
  Every key comes from the dictionary, so \<^verbatim>\<open>data[key]\<close> finds it. A loop that ends
  without returning makes the function return \<^verbatim>\<open>None\<close>.
\<close>

fun first_key_with :: "(string, int) dict \<Rightarrow> int \<Rightarrow> string list \<Rightarrow> pyval" where
  "first_key_with data max_value [] = PyNone"
| "first_key_with data max_value (key # keys) =
     (if map_of data key = Some max_value then PyStr key
      else first_key_with data max_value keys)"

text \<open>The builtin \<^verbatim>\<open>max\<close> on a non-empty sequence of integers.\<close>

definition max_of :: "int \<Rightarrow> int list \<Rightarrow> int" where
  "max_of v vs = foldl max v vs"

definition lexicographic_min :: "(string, int) dict \<Rightarrow> pyval" where
  "lexicographic_min data =
     (case map snd data of
        [] \<Rightarrow> PyStr ''''
      | v # vs \<Rightarrow> first_key_with data (max_of v vs) (sort (map fst data)))"

subsection \<open>\<^verbatim>\<open>SlowestPageStat\<close> and \<^verbatim>\<open>FastestPageStat\<close>\<close>

record SlowestPageStat =
  max_time :: int
  slowest_value :: string

definition SlowestPageStat_init :: SlowestPageStat where
  "SlowestPageStat_init = \<lparr>max_time = 0, slowest_value = ''''\<rparr>"

definition SlowestPageStat_update :: "SlowestPageStat \<Rightarrow> int \<Rightarrow> string \<Rightarrow> SlowestPageStat" where
  "SlowestPageStat_update s time page =
     (if time \<ge> max_time s then s\<lparr>slowest_value := page, max_time := time\<rparr> else s)"

definition SlowestPageStat_value :: "SlowestPageStat \<Rightarrow> pyval" where
  "SlowestPageStat_value s = PyStr (slowest_value s)"

record FastestPageStat =
  min_time :: int
  fastest_value :: string

definition FastestPageStat_init :: FastestPageStat where
  "FastestPageStat_init = \<lparr>min_time = 10 ^ 10, fastest_value = ''''\<rparr>"

definition FastestPageStat_update :: "FastestPageStat \<Rightarrow> int \<Rightarrow> string \<Rightarrow> FastestPageStat" where
  "FastestPageStat_update s time page =
     (if time \<le> min_time s then s\<lparr>fastest_value := page, min_time := time\<rparr> else s)"

definition FastestPageStat_value :: "FastestPageStat \<Rightarrow> pyval" where
  "FastestPageStat_value s = PyStr (fastest_value s)"

subsection \<open>\<^verbatim>\<open>Page\<close> and \<^verbatim>\<open>SlowestAveragePageStat\<close>\<close>

record Page =
  total_time :: int
  page_count :: int
  avg_time :: rat

definition Page_init :: Page where
  "Page_init = \<lparr>total_time = 0, page_count = 0, avg_time = 0\<rparr>"

text \<open>
  \<^verbatim>\<open>calculate_avg_time\<close> and \<^verbatim>\<open>add_time\<close> return the exception raised, if any, and the
  object as the call leaves it: when the division raises, the sums are already updated
  and the average is the old one.
\<close>

definition calculate_avg_time :: "Page \<Rightarrow> error option \<times> Page" where
  "calculate_avg_time p =
     (case int_true_div (total_time p) (page_count p) of
        Inl e \<Rightarrow> (Some e, p)
      | Inr a \<Rightarrow> (None, p\<lparr>avg_time := a\<rparr>))"

definition add_time :: "Page \<Rightarrow> int \<Rightarrow> error option \<times> Page" where
  "add_time p time =
     calculate_avg_time (p\<lparr>total_time := total_time p + time, page_count := page_count p + 1\<rparr>)"

text \<open>
  The builtin \<^verbatim>\<open>max\<close> with a key function keeps the first of the largest items: the
  candidate is replaced only by an item with a strictly larger key.
\<close>

fun max_by_avg :: "Page \<Rightarrow> Page list \<Rightarrow> Page" where
  "max_by_avg m [] = m"
| "max_by_avg m (p # ps) = max_by_avg (if avg_time m < avg_time p then p else m) ps"

text \<open>
  The loop of \<^verbatim>\<open>Page.max\<close> over \<^verbatim>\<open>pages.keys()\<close>. Every name comes from the dictionary,
  so \<^verbatim>\<open>pages[name]\<close> finds it.
\<close>

fun first_page_close :: "(string, Page) dict \<Rightarrow> Page \<Rightarrow> string list \<Rightarrow> pyval" where
  "first_page_close pages max_avg_time [] = PyNone"
| "first_page_close pages max_avg_time (name # names) =
     (case map_of pages name of
        Some p \<Rightarrow>
          if float_close (avg_time p) (avg_time max_avg_time) then PyStr name
          else first_page_close pages max_avg_time names
      | None \<Rightarrow> first_page_close pages max_avg_time names)"

text \<open>\<^verbatim>\<open>Page.max\<close>; \<^verbatim>\<open>max\<close> of an empty sequence raises \<^verbatim>\<open>ValueError\<close>.\<close>

definition Page_max :: "(string, Page) dict \<Rightarrow> error + pyval" where
  "Page_max pages =
     (case map snd pages of
        [] \<Rightarrow> Inl ValueError
      | p # ps \<Rightarrow> Inr (first_page_close pages (max_by_avg p ps) (map fst pages)))"

type_synonym SlowestAveragePageStat = "(string, Page) dict"

definition SlowestAveragePageStat_init :: SlowestAveragePageStat where
  "SlowestAveragePageStat_init = []"

definition SlowestAveragePageStat_update ::
    "SlowestAveragePageStat \<Rightarrow> int \<Rightarrow> string \<Rightarrow> error option \<times> SlowestAveragePageStat" where
  "SlowestAveragePageStat_update pages time page =
     (let (p, pages') = defaultdict_get Page_init pages page;
          (e, p') = add_time p time
      in (e, dict_set pages' page p'))"

definition SlowestAveragePageStat_value :: "SlowestAveragePageStat \<Rightarrow> error + pyval" where
  "SlowestAveragePageStat_value pages = (if pages \<noteq> [] then Page_max pages else Inr (PyStr ''''))"

subsection \<open>The counting statistics\<close>

type_synonym MostPopularPageStat = "(string, int) dict"
type_synonym MostActiveClientStat = "(string, int) dict"
type_synonym MostPopularBrowserStat = "(string, int) dict"

definition MostPopularPageStat_update :: "MostPopularPageStat \<Rightarrow> string \<Rightarrow> MostPopularPageStat" where
  "MostPopularPageStat_update pages page = counter_inc pages page"

definition MostPopularPageStat_value :: "MostPopularPageStat \<Rightarrow> pyval" where
  "MostPopularPageStat_value pages = lexicographic_min pages"

definition MostActiveClientStat_update :: "MostActiveClientStat \<Rightarrow> string \<Rightarrow> MostActiveClientStat" where
  "MostActiveClientStat_update clients client = counter_inc clients client"

definition MostActiveClientStat_value :: "MostActiveClientStat \<Rightarrow> pyval" where
  "MostActiveClientStat_value clients = lexicographic_min clients"

definition MostPopularBrowserStat_update ::
    "MostPopularBrowserStat \<Rightarrow> string \<Rightarrow> MostPopularBrowserStat" where
  "MostPopularBrowserStat_update browsers browser = counter_inc browsers browser"

definition MostPopularBrowserStat_value :: "MostPopularBrowserStat \<Rightarrow> pyval" where
  "MostPopularBrowserStat_value browsers = lexicographic_min browsers"

record MostActiveClientByDayStat =
  by_day_date :: date
  by_day_clients :: "(string, int) dict"

definition MostActiveClientByDayStat_init :: "date \<Rightarrow> MostActiveClientByDayStat" where
  "MostActiveClientByDayStat_init d = \<lparr>by_day_date = d, by_day_clients = []\<rparr>"

definition MostActiveClientByDayStat_update ::
    "MostActiveClientByDayStat \<Rightarrow> date \<Rightarrow> string \<Rightarrow> MostActiveClientByDayStat" where
  "MostActiveClientByDayStat_update s d client =
     (if by_day_date s \<noteq> d then s
      else s\<lparr>by_day_clients := counter_inc (by_day_clients s) client\<rparr>)"

definition MostActiveClientByDayStat_value :: "MostActiveClientByDayStat \<Rightarrow> pyval" where
  "MostActiveClientByDayStat_value s =
     PyDict [(by_day_date s, lexicographic_min (by_day_clients s))]"

section \<open>The parser\<close>

subsection \<open>Regular expressions\<close>

text \<open>
  \<^verbatim>\<open>re.match\<close> is a backtracking matcher: at every choice it tries the alternatives in a
  fixed order of preference and reports the first way to match the whole pattern at the
  start of the string. A pattern is modelled as the function that maps the rest of the
  input to all its matches there, in that order of preference, each with the value it
  captures and the input left. Nothing requires the input left to be empty.
\<close>

type_synonym 'a rx = "string \<Rightarrow> ('a \<times> string) list"

definition rx_return :: "'a \<Rightarrow> 'a rx" where
  "rx_return a s = [(a, s)]"

definition rx_bind :: "'a rx \<Rightarrow> ('a \<Rightarrow> 'b rx) \<Rightarrow> 'b rx" where
  "rx_bind p f s = concat (map (\<lambda>(a, r). f a r) (p s))"

definition rx_then :: "'a rx \<Rightarrow> 'b rx \<Rightarrow> 'b rx" where
  "rx_then p q = rx_bind p (\<lambda>_. q)"

text \<open>A sequence of patterns that capture nothing.\<close>

fun rx_seq :: "unit rx list \<Rightarrow> unit rx" where
  "rx_seq [] = rx_return ()"
| "rx_seq (p # ps) = rx_then p (rx_seq ps)"

definition rx_alt :: "'a rx \<Rightarrow> 'a rx \<Rightarrow> 'a rx" where
  "rx_alt p q s = p s @ q s"

definition rx_char :: "(char \<Rightarrow> bool) \<Rightarrow> unit rx" where
  "rx_char P s = (case s of [] \<Rightarrow> [] | c # r \<Rightarrow> if P c then [((), r)] else [])"

definition rx_lit :: "string \<Rightarrow> unit rx" where
  "rx_lit w s = (if take (length w) s = w then [((), drop (length w) s)] else [])"

text \<open>
  A greedy repetition \<^verbatim>\<open>{lo,hi}\<close> (\<^verbatim>\<open>+\<close> is \<^verbatim>\<open>{1,}\<close>) of a one-character class: the longest
  run first, then one character less at a time, down to \<open>lo\<close> characters.
\<close>

definition rx_repeat :: "nat \<Rightarrow> nat option \<Rightarrow> (char \<Rightarrow> bool) \<Rightarrow> unit rx" where
  "rx_repeat lo hi P s =
     (let run = length (takeWhile P s);
          top = (case hi of None \<Rightarrow> run | Some h \<Rightarrow> min h run)
      in map (\<lambda>k. ((), drop k s)) (rev [lo ..< Suc top]))"

text \<open>A capturing group yields the text its pattern has consumed.\<close>

definition rx_group :: "'a rx \<Rightarrow> string rx" where
  "rx_group p s = map (\<lambda>(a, r). (take (length s - length r) s, r)) (p s)"

text \<open>A greedy optional group \<^verbatim>\<open>(...)?\<close>: with the group first, then without.\<close>

definition rx_opt :: "'a rx \<Rightarrow> 'a option rx" where
  "rx_opt p = rx_alt (rx_bind p (\<lambda>a. rx_return (Some a))) (rx_return None)"

definition re_match :: "'a rx \<Rightarrow> string \<Rightarrow> 'a option" where
  "re_match p s = (case p s of [] \<Rightarrow> None | (a, r) # _ \<Rightarrow> Some a)"

text \<open>
  The character classes, on code points below 256: \<^verbatim>\<open>\d\<close> is a decimal digit, \<^verbatim>\<open>\s\<close> a
  white-space character (\<^verbatim>\<open>str.isspace\<close>), \<^verbatim>\<open>\S\<close> its complement, and \<^verbatim>\<open>.\<close> anything but a
  line feed.
\<close>

definition is_digit :: "char \<Rightarrow> bool" where
  "is_digit c = (c \<in> set ''0123456789'')"

definition is_space :: "char \<Rightarrow> bool" where
  "is_space c =
     (c \<in> set [CHR 0x09, CHR 0x0A, CHR 0x0B, CHR 0x0C, CHR 0x0D, CHR 0x1C, CHR 0x1D,
               CHR 0x1E, CHR 0x1F, CHR 0x20, CHR 0x85, CHR 0xA0])"

definition not_space :: "char \<Rightarrow> bool" where
  "not_space c = (\<not> is_space c)"

definition any_char :: "char \<Rightarrow> bool" where
  "any_char c = (c \<noteq> CHR 0x0A)"

definition dquote :: char where
  "dquote = CHR 0x22"

subsection \<open>\<^verbatim>\<open>Parser.PATTERN\<close>\<close>

text \<open>The named groups of a match, as \<^verbatim>\<open>groupdict()\<close> returns them.\<close>

record raw_group =
  raw_IP :: string
  raw_date :: string
  raw_page :: string
  raw_User_Agent :: string
  raw_time :: "string option"

text \<open>\<^verbatim>\<open>\d{1,3}\.\<close>\<close>

definition octet_dot :: "unit rx" where
  "octet_dot = rx_then (rx_repeat 1 (Some 3) is_digit) (rx_lit ''.'')"

text \<open>\<^verbatim>\<open>(GET|PUT|POST|HEAD|OPTIONS|DELETE)\<close>\<close>

definition http_method :: "unit rx" where
  "http_method =
     rx_alt (rx_lit ''GET'') (rx_alt (rx_lit ''PUT'') (rx_alt (rx_lit ''POST'')
       (rx_alt (rx_lit ''HEAD'') (rx_alt (rx_lit ''OPTIONS'') (rx_lit ''DELETE'')))))"

text \<open>
  The source writes the pattern as four adjacent string literals; the model has one
  definition for each, from the last to the first, since each piece is followed by the
  later ones. The groups captured so far are parameters of the later pieces.

  Fourth piece: \<^verbatim>\<open>(?P<User_Agent>(.+))"(\s(?P<time>(\d+)))?\<close>
\<close>

definition time_group :: "string option rx" where
  "time_group = rx_opt (rx_then (rx_char is_space) (rx_group (rx_repeat 1 None is_digit)))"

definition PATTERN_4 :: "string \<Rightarrow> string \<Rightarrow> string \<Rightarrow> raw_group rx" where
  "PATTERN_4 ip date page =
     rx_bind (rx_group (rx_repeat 1 None any_char)) (\<lambda>user_agent.
     rx_then (rx_lit [dquote]) (
     rx_bind time_group (\<lambda>time.
     rx_return \<lparr>raw_IP = ip, raw_date = date, raw_page = page,
                raw_User_Agent = user_agent, raw_time = time\<rparr>)))"

text \<open>Third piece: \<^verbatim>\<open>(?P<page>(\S+)).\S+" \d+ \d+ "\S+\s"\<close>\<close>

definition PATTERN_3 :: "string \<Rightarrow> string \<Rightarrow> raw_group rx" where
  "PATTERN_3 ip date =
     rx_bind (rx_group (rx_repeat 1 None not_space)) (\<lambda>page.
     rx_then (rx_seq [rx_char any_char, rx_repeat 1 None not_space,
                      rx_lit [dquote, CHR 0x20], rx_repeat 1 None is_digit,
                      rx_lit [CHR 0x20], rx_repeat 1 None is_digit,
                      rx_lit [CHR 0x20, dquote], rx_repeat 1 None not_space,
                      rx_char is_space, rx_lit [dquote]]) (
     PATTERN_4 ip date page))"

text \<open>Second piece: \<^verbatim>\<open>\[(?P<date>.+)\]\s"(GET|PUT|POST|HEAD|OPTIONS|DELETE)\s\<close>\<close>

definition PATTERN_2 :: "string \<Rightarrow> raw_group rx" where
  "PATTERN_2 ip =
     rx_then (rx_lit ''['') (
     rx_bind (rx_group (rx_repeat 1 None any_char)) (\<lambda>date.
     rx_then (rx_seq [rx_lit '']'', rx_char is_space, rx_lit [dquote], http_method,
                      rx_char is_space]) (
     PATTERN_3 ip date)))"

text \<open>First piece: \<^verbatim>\<open>(?P<IP>(\d{1,3}\.){3}\d{1,3})\s-\s-\s\<close>\<close>

definition PATTERN :: "raw_group rx" where
  "PATTERN =
     rx_bind (rx_group (rx_seq [octet_dot, octet_dot, octet_dot,
                                rx_repeat 1 (Some 3) is_digit])) (\<lambda>ip.
     rx_then (rx_seq [rx_char is_space, rx_lit ''-'', rx_char is_space, rx_lit ''-'',
                      rx_char is_space]) (
     PATTERN_2 ip))"

subsection \<open>\<^verbatim>\<open>Parser.parse\<close> and \<^verbatim>\<open>Parser.type_conversion\<close>\<close>

text \<open>The record \<^verbatim>\<open>type_conversion\<close> returns: the date and the time are converted.\<close>

record group =
  group_IP :: string
  group_date :: date
  group_page :: string
  group_User_Agent :: string
  group_time :: "int option"

text \<open>
  \<^verbatim>\<open>int\<close> on a string of decimal digits, as the group \<^verbatim>\<open>\d+\<close> captures it. The value has
  no bound; the limit that some interpreters put on the number of digits of such a
  string is not modelled.
\<close>

definition digit_value :: "char \<Rightarrow> int" where
  "digit_value c = int (of_char c) - 48"

definition py_int :: "string \<Rightarrow> int" where
  "py_int s = foldl (\<lambda>n c. 10 * n + digit_value c) 0 s"

text \<open>
  \<^verbatim>\<open>datetime.strptime(_, "%d/%b/%Y:%H:%M:%S %z").date()\<close> is a function of the standard
  library: the parser takes it as the parameter \<open>strptime\<close>, which returns the date or
  the exception raised. The group \<^verbatim>\<open>time\<close> matches \<^verbatim>\<open>\d+\<close>: when it is present it is a
  non-empty string, which is true in Python, and it is converted.
\<close>

definition type_conversion :: "(string \<Rightarrow> error + date) \<Rightarrow> raw_group \<Rightarrow> error + group" where
  "type_conversion strptime g =
     (case strptime (raw_date g) of
        Inl e \<Rightarrow> Inl e
      | Inr d \<Rightarrow>
          Inr \<lparr>group_IP = raw_IP g, group_date = d, group_page = raw_page g,
               group_User_Agent = raw_User_Agent g,
               group_time = (case raw_time g of None \<Rightarrow> None | Some t \<Rightarrow> Some (py_int t))\<rparr>)"

definition parse :: "(string \<Rightarrow> error + date) \<Rightarrow> string \<Rightarrow> error + group option" where
  "parse strptime line =
     (case re_match PATTERN line of
        None \<Rightarrow> Inr None
      | Some data \<Rightarrow>
          (case type_conversion strptime data of Inl e \<Rightarrow> Inl e | Inr g \<Rightarrow> Inr (Some g)))"

subsection \<open>A model of \<^verbatim>\<open>strptime\<close>\<close>

text \<open>
  The theorems about the parser hold for every \<open>strptime\<close>. The examples on concrete
  lines need one: \<open>strptime_date\<close> follows CPython 3.11's \<^verbatim>\<open>_strptime\<close> for the format
  \<^verbatim>\<open>%d/%b/%Y:%H:%M:%S %z\<close> in the C locale. The format becomes a regular expression,
  matched without regard to case,
  \<^verbatim>\<open>(?P<d>3[0-1]|[1-2]\d|0[1-9]|[1-9]| [1-9])/(?P<b>jan|...|dec)/(?P<Y>\d\d\d\d)\<close>
  \<^verbatim>\<open>:(?P<H>2[0-3]|[0-1]\d|\d):(?P<M>[0-5]\d|\d):(?P<S>6[0-1]|[0-5]\d|\d)\s+\<close>
  \<^verbatim>\<open>(?P<z>[+-]\d\d:?[0-5]\d(:?[0-5]\d(\.\d{1,6})?)?|Z)\<close>;
  the match must end at the end of the string, the fields must form a date and a time
  of day that exist, and the offset must be less than a day. Every failure is a
  \<^verbatim>\<open>ValueError\<close>.
\<close>

definition in_range :: "char \<Rightarrow> char \<Rightarrow> char \<Rightarrow> bool" where
  "in_range lo hi c = (lo \<le> c \<and> c \<le> hi)"

text \<open>Two characters: one of class \<open>P\<close>, then one of class \<open>Q\<close>.\<close>

definition rx_two :: "(char \<Rightarrow> bool) \<Rightarrow> (char \<Rightarrow> bool) \<Rightarrow> unit rx" where
  "rx_two P Q = rx_then (rx_char P) (rx_char Q)"

definition lower :: "char \<Rightarrow> char" where
  "lower c = (if in_range CHR ''A'' CHR ''Z'' c then char_of (of_char c + (32::nat)) else c)"

definition rx_lit_nocase :: "string \<Rightarrow> unit rx" where
  "rx_lit_nocase w s =
     (if map lower (take (length w) s) = w then [((), drop (length w) s)] else [])"

definition a_month :: "string list" where
  "a_month = [''jan'', ''feb'', ''mar'', ''apr'', ''may'', ''jun'',
              ''jul'', ''aug'', ''sep'', ''oct'', ''nov'', ''dec'']"

fun rx_any_of :: "unit rx list \<Rightarrow> unit rx" where
  "rx_any_of [] = (\<lambda>s. [])"
| "rx_any_of (p # ps) = rx_alt p (rx_any_of ps)"

definition directive_d :: "unit rx" where
  "directive_d =
     rx_any_of [rx_two (in_range CHR ''3'' CHR ''3'') (in_range CHR ''0'' CHR ''1''),
                rx_two (in_range CHR ''1'' CHR ''2'') is_digit,
                rx_two (in_range CHR ''0'' CHR ''0'') (in_range CHR ''1'' CHR ''9''),
                rx_char (in_range CHR ''1'' CHR ''9''),
                rx_two (in_range CHR 0x20 CHR 0x20) (in_range CHR ''1'' CHR ''9'')]"

definition directive_b :: "unit rx" where
  "directive_b = rx_any_of (map rx_lit_nocase a_month)"

definition directive_Y :: "unit rx" where
  "directive_Y = rx_repeat 4 (Some 4) is_digit"

definition directive_H :: "unit rx" where
  "directive_H =
     rx_any_of [rx_two (in_range CHR ''2'' CHR ''2'') (in_range CHR ''0'' CHR ''3''),
                rx_two (in_range CHR ''0'' CHR ''1'') is_digit,
                rx_char is_digit]"

definition directive_M :: "unit rx" where
  "directive_M = rx_any_of [rx_two (in_range CHR ''0'' CHR ''5'') is_digit, rx_char is_digit]"

definition directive_S :: "unit rx" where
  "directive_S =
     rx_any_of [rx_two (in_range CHR ''6'' CHR ''6'') (in_range CHR ''0'' CHR ''1''),
                rx_two (in_range CHR ''0'' CHR ''5'') is_digit,
                rx_char is_digit]"

definition directive_z :: "unit rx" where
  "directive_z =
     rx_alt
       (rx_seq [rx_char (\<lambda>c. c = CHR ''+'' \<or> c = CHR ''-''), rx_two is_digit is_digit,
                rx_then (rx_opt (rx_lit '':'')) (rx_return ()),
                rx_two (in_range CHR ''0'' CHR ''5'') is_digit,
                rx_then (rx_opt (rx_seq
                  [rx_then (rx_opt (rx_lit '':'')) (rx_return ()),
                   rx_two (in_range CHR ''0'' CHR ''5'') is_digit,
                   rx_then (rx_opt (rx_then (rx_lit ''.'') (rx_repeat 1 (Some 6) is_digit)))
                     (rx_return ())])) (rx_return ())])
       (rx_lit ''Z'')"

record time_fields =
  field_d :: string
  field_b :: string
  field_Y :: string
  field_H :: string
  field_M :: string
  field_S :: string
  field_z :: string

definition format_regex :: "time_fields rx" where
  "format_regex =
     rx_bind (rx_group directive_d) (\<lambda>d. rx_then (rx_lit ''/'') (
     rx_bind (rx_group directive_b) (\<lambda>b. rx_then (rx_lit ''/'') (
     rx_bind (rx_group directive_Y) (\<lambda>Y. rx_then (rx_lit '':'') (
     rx_bind (rx_group directive_H) (\<lambda>H. rx_then (rx_lit '':'') (
     rx_bind (rx_group directive_M) (\<lambda>M. rx_then (rx_lit '':'') (
     rx_bind (rx_group directive_S) (\<lambda>S. rx_then (rx_repeat 1 None is_space) (
     rx_bind (rx_group directive_z) (\<lambda>z.
     rx_return \<lparr>field_d = d, field_b = b, field_Y = Y, field_H = H, field_M = M,
                field_S = S, field_z = z\<rparr>)))))))))))))"

text \<open>
  The offset: a colon after the hours is removed, and the one before the seconds must
  then be there too; the seconds are read from the two characters after the minutes.
\<close>

definition offset_ok :: "string \<Rightarrow> bool" where
  "offset_ok z =
     (if z = ''Z'' then True
      else let z1 = (if take 1 (drop 3 z) = '':'' then take 3 z @ drop 4 z else z);
               consistent = (take 1 (drop 3 z) = '':'' \<and> length z1 > 5
                             \<longrightarrow> take 1 (drop 5 z1) = '':'');
               z2 = (if take 1 (drop 3 z) = '':'' \<and> length z1 > 5
                     then take 5 z1 @ drop 6 z1 else z1)
           in consistent \<and> list_all is_digit (take 2 (drop 5 z2))
              \<and> py_int (take 2 (drop 1 z2)) < 24)"

definition is_leap :: "int \<Rightarrow> bool" where
  "is_leap y = (y mod 4 = 0 \<and> (y mod 100 \<noteq> 0 \<or> y mod 400 = 0))"

definition days_in_month :: "int \<Rightarrow> int \<Rightarrow> int" where
  "days_in_month y m =
     (if m = 2 then (if is_leap y then 29 else 28)
      else if m \<in> {4, 6, 9, 11} then 30 else 31)"

fun index_of :: "string \<Rightarrow> string list \<Rightarrow> int" where
  "index_of w [] = 0"
| "index_of w (x # xs) = (if x = w then 0 else 1 + index_of w xs)"

definition strptime_date :: "string \<Rightarrow> error + date" where
  "strptime_date data_string =
     (case format_regex data_string of
        [] \<Rightarrow> Inl ValueError
      | (found, rest) # _ \<Rightarrow>
          if rest \<noteq> [] then Inl ValueError
          else let y = py_int (field_Y found);
                   m = 1 + index_of (map lower (field_b found)) a_month;
                   d = py_int (dropWhile is_space (field_d found))
               in if offset_ok (field_z found) \<and> 1 \<le> y \<and> d \<le> days_in_month y m
                     \<and> py_int (field_S found) \<le> 59
                  then Inr \<lparr>year = y, month = m, day = d\<rparr>
                  else Inl ValueError)"

section \<open>\<^verbatim>\<open>Statistics\<close>\<close>

record Statistics =
  fastest_page :: FastestPageStat
  slowest_page :: SlowestPageStat
  slowest_average_page :: SlowestAveragePageStat
  most_popular_page :: MostPopularPageStat
  most_active_client :: MostActiveClientStat
  most_popular_browser :: MostPopularBrowserStat
  most_active_client_by_day :: MostActiveClientByDayStat

definition make_stat :: Statistics where
  "make_stat =
     \<lparr>fastest_page = FastestPageStat_init,
      slowest_page = SlowestPageStat_init,
      slowest_average_page = SlowestAveragePageStat_init,
      most_popular_page = [],
      most_active_client = [],
      most_popular_browser = [],
      most_active_client_by_day =
        MostActiveClientByDayStat_init \<lparr>year = 2012, month = 7, day = 8\<rparr>\<rparr>"

text \<open>
  The three updates under \<^verbatim>\<open>if group['time']:\<close>. The third can raise in its division;
  the first two are done by then.
\<close>

definition timed_updates :: "Statistics \<Rightarrow> int \<Rightarrow> string \<Rightarrow> error option \<times> Statistics" where
  "timed_updates st time page =
     (let f = FastestPageStat_update (fastest_page st) time page;
          s = SlowestPageStat_update (slowest_page st) time page;
          (e, a) = SlowestAveragePageStat_update (slowest_average_page st) time page
      in (e, st\<lparr>fastest_page := f, slowest_page := s, slowest_average_page := a\<rparr>))"

definition counted_updates :: "Statistics \<Rightarrow> group \<Rightarrow> Statistics" where
  "counted_updates st g =
     st\<lparr>most_popular_page := MostPopularPageStat_update (most_popular_page st) (group_page g),
        most_active_client := MostActiveClientStat_update (most_active_client st) (group_IP g),
        most_popular_browser :=
          MostPopularBrowserStat_update (most_popular_browser st) (group_User_Agent g),
        most_active_client_by_day :=
          MostActiveClientByDayStat_update (most_active_client_by_day st)
            (group_date g) (group_IP g)\<rparr>"

text \<open>
  \<^verbatim>\<open>Statistics.update\<close>. The test \<^verbatim>\<open>if group['time']:\<close> is Python's truth test: \<^verbatim>\<open>None\<close>
  is false, and so is the integer 0. The result is the exception raised, if any, and
  the state the call leaves.
\<close>

definition truthy :: "int option \<Rightarrow> bool" where
  "truthy t = (case t of None \<Rightarrow> False | Some n \<Rightarrow> n \<noteq> 0)"

definition Statistics_update :: "Statistics \<Rightarrow> group \<Rightarrow> error option \<times> Statistics" where
  "Statistics_update st g =
     (let (e, st') =
            (case group_time g of
               Some time \<Rightarrow>
                 if truthy (group_time g) then timed_updates st time (group_page g)
                 else (None, st)
             | None \<Rightarrow> (None, st))
      in case e of
           Some err \<Rightarrow> (Some err, st')
         | None \<Rightarrow> (None, counted_updates st' g))"

text \<open>
  \<^verbatim>\<open>Statistics.add_line\<close>. The dictionary \<^verbatim>\<open>parse\<close> returns has five keys, so it is true
  in Python whenever it is not \<^verbatim>\<open>None\<close>.
\<close>

definition add_line ::
    "(string \<Rightarrow> error + date) \<Rightarrow> Statistics \<Rightarrow> string \<Rightarrow> error option \<times> Statistics" where
  "add_line strptime st line =
     (case parse strptime line of
        Inl e \<Rightarrow> (Some e, st)
      | Inr None \<Rightarrow> (None, st)
      | Inr (Some grouped_data) \<Rightarrow> Statistics_update st grouped_data)"

text \<open>\<^verbatim>\<open>Statistics.results\<close>: the dictionary as the list of its items in order.\<close>

definition results :: "Statistics \<Rightarrow> error + (string \<times> pyval) list" where
  "results st =
     (case SlowestAveragePageStat_value (slowest_average_page st) of
        Inl e \<Rightarrow> Inl e
      | Inr slowest_average \<Rightarrow>
          Inr [(''FastestPage'', FastestPageStat_value (fastest_page st)),
               (''MostActiveClient'', MostActiveClientStat_value (most_active_client st)),
               (''MostActiveClientByDay'',
                  MostActiveClientByDayStat_value (most_active_client_by_day st)),
               (''MostPopularBrowser'', MostPopularBrowserStat_value (most_popular_browser st)),
               (''MostPopularPage'', MostPopularPageStat_value (most_popular_page st)),
               (''SlowestAveragePage'', slowest_average),
               (''SlowestPage'', SlowestPageStat_value (slowest_page st))])"

section \<open>Sequences of calls\<close>



definition MostActiveClientByDayStat_updates ::
    "MostActiveClientByDayStat \<Rightarrow> (date \<times> string) list \<Rightarrow> MostActiveClientByDayStat" where
  "MostActiveClientByDayStat_updates s us =
     foldl (\<lambda>s (d, client). MostActiveClientByDayStat_update s d client) s us"

text \<open>The counts as a map: what \<^verbatim>\<open>d[k] += 1\<close> does to the map a dictionary denotes.\<close>

definition bump :: "('k \<rightharpoonup> int) \<Rightarrow> 'k \<Rightarrow> ('k \<rightharpoonup> int)" where
  "bump m k = m(k \<mapsto> (case m k of None \<Rightarrow> 0 | Some v \<Rightarrow> v) + 1)"

text \<open>The first of a list of matches, if any: the match the backtracking search reports.\<close>

definition first_of :: "'a list \<Rightarrow> 'a option" where
  "first_of xs = (case xs of [] \<Rightarrow> None | x # _ \<Rightarrow> Some x)"

section \<open>Lines of the usual shape\<close>

text \<open>
  The fields of a log line as a server writes it: four groups of digits for the
  address, the timestamp, the request (method, path, protocol version), the status,
  the size, the referrer, the user agent, the response time if there is one, and
  whatever follows. \<open>render\<close> writes the line with single spaces between the fields.
\<close>

record log_line =
  ll_octet1 :: string
  ll_octet2 :: string
  ll_octet3 :: string
  ll_octet4 :: string
  ll_timestamp :: string
  ll_method :: string
  ll_path :: string
  ll_version :: string
  ll_status :: string
  ll_bytes :: string
  ll_referrer :: string
  ll_user_agent :: string
  ll_time :: "string option"
  ll_trailing :: string

definition ll_address :: "log_line \<Rightarrow> string" where
  "ll_address l = ll_octet1 l @ ''.'' @ ll_octet2 l @ ''.'' @ ll_octet3 l @ ''.'' @ ll_octet4 l"

definition render :: "log_line \<Rightarrow> string" where
  "render l =
     ll_address l @ '' - - ['' @ ll_timestamp l @ ''] '' @ [dquote] @ ll_method l @ '' ''
     @ ll_path l @ '' '' @ ll_version l @ [dquote] @ '' '' @ ll_status l @ '' ''
     @ ll_bytes l @ '' '' @ [dquote] @ ll_referrer l @ [dquote] @ '' '' @ [dquote]
     @ ll_user_agent l @ [dquote]
     @ (case ll_time l of None \<Rightarrow> [] | Some t \<Rightarrow> '' '' @ t) @ ll_trailing l"

definition methods :: "string list" where
  "methods = [''GET'', ''PUT'', ''POST'', ''HEAD'', ''OPTIONS'', ''DELETE'']"

definition octet_ok :: "string \<Rightarrow> bool" where
  "octet_ok w = (w \<noteq> [] \<and> length w \<le> 3 \<and> list_all is_digit w)"

definition number_ok :: "string \<Rightarrow> bool" where
  "number_ok w = (w \<noteq> [] \<and> list_all is_digit w)"

definition token_ok :: "string \<Rightarrow> bool" where
  "token_ok w = (list_all not_space w \<and> CHR '']'' \<notin> set w)"

text \<open>
  The usual shape: the address is four groups of one to three digits; the timestamp is
  not empty and has no line feed; the method is one of the six; path and version are
  not empty and have no white space; status and size are numbers; the referrer has no
  white space; the user agent is not empty and has no line feed; a response time is a
  number, and what follows it does not go on with a digit; without a response time,
  what follows does not start with a white-space character and a digit. No closing
  bracket occurs after the timestamp, and no double quote after the user agent.
\<close>

definition well_formed :: "log_line \<Rightarrow> bool" where
  "well_formed l =
     (octet_ok (ll_octet1 l) \<and> octet_ok (ll_octet2 l) \<and> octet_ok (ll_octet3 l)
      \<and> octet_ok (ll_octet4 l)
      \<and> ll_timestamp l \<noteq> [] \<and> list_all any_char (ll_timestamp l)
      \<and> ll_method l \<in> set methods
      \<and> ll_path l \<noteq> [] \<and> token_ok (ll_path l)
      \<and> ll_version l \<noteq> [] \<and> token_ok (ll_version l)
      \<and> number_ok (ll_status l) \<and> number_ok (ll_bytes l)
      \<and> token_ok (ll_referrer l)
      \<and> ll_user_agent l \<noteq> [] \<and> list_all any_char (ll_user_agent l)
      \<and> CHR '']'' \<notin> set (ll_user_agent l)
      \<and> (case ll_time l of
            Some t \<Rightarrow> number_ok t \<and> (ll_trailing l = [] \<or> \<not> is_digit (hd (ll_trailing l)))
          | None \<Rightarrow> ll_trailing l = [] \<or> \<not> is_space (hd (ll_trailing l))
                    \<or> tl (ll_trailing l) = [] \<or> \<not> is_digit (hd (tl (ll_trailing l))))
      \<and> dquote \<notin> set (ll_trailing l) \<and> CHR '']'' \<notin> set (ll_trailing l))"

section \<open>Examples\<close>


text \<open>
  A line of the tests of the repository, with the response time 123; the same line with
  the response time 0; with text after the response time; and with the thirty-second
  of July for its date.
\<close>

definition graph_line :: log_line where
  "graph_line =
     \<lparr>ll_octet1 = ''192'', ll_octet2 = ''168'', ll_octet3 = ''74'', ll_octet4 = ''83'',
      ll_timestamp = ''08/Jul/2012:06:31:57 +0600'',
      ll_method = ''GET'', ll_path = ''/img/graph.png'', ll_version = ''HTTP/1.1'',
      ll_status = ''304'', ll_bytes = ''211'',
      ll_referrer = ''http://callider/menu-top.php'',
      ll_user_agent =
        ''Mozilla/5.0 (compatible; MSIE 9.0; Windows NT 6.1; WOW64; Trident/5.0)'',
      ll_time = Some ''123'', ll_trailing = []\<rparr>"

definition zero_time_line :: log_line where
  "zero_time_line = graph_line\<lparr>ll_time := Some ''0''\<rparr>"

definition trailing_line :: log_line where
  "trailing_line = graph_line\<lparr>ll_trailing := '' and more text''\<rparr>"

definition bad_date_line :: log_line where
  "bad_date_line = graph_line\<lparr>ll_timestamp := ''32/Jul/2012:06:31:57 +0600''\<rparr>"

text \<open>The record parsed from \<open>graph_line\<close>.\<close>

definition graph_group :: group where
  "graph_group =
     \<lparr>group_IP = ''192.168.74.83'',
      group_date = \<lparr>year = 2012, month = 7, day = 8\<rparr>,
      group_page = ''/img/graph.png'',
      group_User_Agent =
        ''Mozilla/5.0 (compatible; MSIE 9.0; Windows NT 6.1; WOW64; Trident/5.0)'',
      group_time = Some 123\<rparr>"

section \<open>Properties\<close>

subsection \<open>The report of a fresh engine\<close>

text \<open>
  C9. On a freshly constructed engine, before any line is added, \<^verbatim>\<open>results()\<close> is the
  dictionary with exactly the seven keys FastestPage, MostActiveClient,
  MostActiveClientByDay, MostPopularBrowser, MostPopularPage, SlowestAveragePage and
  SlowestPage; every string-valued key holds the empty string and MostActiveClientByDay
  holds the one-entry dictionary from the date 2012-07-08 to the empty string.
\<close>

theorem fresh_results:
  "results make_stat =
     Inr [(''FastestPage'', PyStr ''''),
          (''MostActiveClient'', PyStr ''''),
          (''MostActiveClientByDay'',
             PyDict [(\<lparr>year = 2012, month = 7, day = 8\<rparr>, PyStr '''')]),
          (''MostPopularBrowser'', PyStr ''''),
          (''MostPopularPage'', PyStr ''''),
          (''SlowestAveragePage'', PyStr ''''),
          (''SlowestPage'', PyStr '''')]"
  by (simp add: results_def make_stat_def SlowestAveragePageStat_value_def
      SlowestAveragePageStat_init_def FastestPageStat_value_def FastestPageStat_init_def
      MostActiveClientStat_value_def MostActiveClientByDayStat_value_def
      MostActiveClientByDayStat_init_def MostPopularBrowserStat_value_def
      MostPopularPageStat_value_def SlowestPageStat_value_def SlowestPageStat_init_def
      lexicographic_min_def)

subsection \<open>The slowest and the fastest page\<close>



















subsection \<open>The lexicographic tie-break\<close>

lemma first_key_with_find:
  "first_key_with data m ks =
     (case find (\<lambda>k. map_of data k = Some m) ks of None \<Rightarrow> PyNone | Some k \<Rightarrow> PyStr k)"
  by (induction ks) auto

lemma max_of_Max: "max_of v vs = Max (set (v # vs))"
proof -
  have "(\<lambda>x s. max s x) = (max :: int \<Rightarrow> int \<Rightarrow> int)"
    by (intro ext) (simp add: max.commute)
  then show ?thesis
    unfolding max_of_def foldl_conv_fold Max.set_eq_fold by simp
qed

lemma lexicographic_min_nonempty:
  assumes "data \<noteq> []"
  shows "lexicographic_min data =
     first_key_with data (Max (snd ` set data)) (sort (map fst data))"
proof -
  obtain v vs where vs: "map snd data = v # vs" using assms by (cases data) auto
  have "set (v # vs) = snd ` set data" using vs by (metis set_map)
  then show ?thesis by (simp add: lexicographic_min_def vs max_of_Max del: set_simps)
qed

lemma lexicographic_min_least:
  assumes ok: "dict_ok data" and ne: "data \<noteq> []"
  shows "\<exists>k. lexicographic_min data = PyStr k
           \<and> map_of data k = Some (Max (snd ` set data))
           \<and> (\<forall>k'. map_of data k' = Some (Max (snd ` set data)) \<longrightarrow> k \<le> k')"
proof -
  let ?m = "Max (snd ` set data)"
  let ?P = "\<lambda>k. map_of data k = Some ?m"
  let ?ks = "sort (map fst data)"
  have "?m \<in> snd ` set data" using ne by (intro Max_in) auto
  then obtain k0 where k0: "(k0, ?m) \<in> set data" by auto
  then have P0: "?P k0" using ok by (simp add: dict_ok_def)
  have in_ks: "\<And>k. ?P k \<Longrightarrow> k \<in> set ?ks"
    by (auto dest: map_of_SomeD intro: rev_image_eqI)
  from P0 in_ks have "\<exists>k \<in> set ?ks. ?P k" by blast
  then obtain k where f: "find ?P ?ks = Some k"
    by (cases "find ?P ?ks") (auto simp: find_None_iff)
  then obtain i where i: "i < length ?ks" "?P (?ks ! i)" "k = ?ks ! i" "\<forall>j<i. \<not> ?P (?ks ! j)"
    unfolding find_Some_iff by blast
  have least: "k \<le> k'" if "?P k'" for k'
  proof -
    from in_ks[OF that] obtain j where j: "j < length ?ks" "k' = ?ks ! j"
      using in_set_conv_nth[of k' ?ks] by blast
    with i(4) that have "i \<le> j" by (meson not_le_imp_less)
    then show ?thesis using j i(3) sorted_nth_mono[of ?ks i j] by simp
  qed
  have "lexicographic_min data = PyStr k"
    by (simp add: lexicographic_min_nonempty[OF ne] first_key_with_find f)
  with i(2,3) least show ?thesis by blast
qed

text \<open>
  C3. \<^verbatim>\<open>lexicographic_min\<close> returns the empty string for the empty dictionary; for a
  non-empty dictionary of counts it returns a key whose count is the largest count of
  the dictionary and that is the smallest, in the lexicographic order of strings,
  of all the keys with that count.
\<close>

theorem lexicographic_min_spec:
  "lexicographic_min [] = PyStr ''''
   \<and> (dict_ok data \<longrightarrow> data \<noteq> [] \<longrightarrow>
        (\<exists>k. lexicographic_min data = PyStr k
           \<and> map_of data k = Some (Max (snd ` set data))
           \<and> (\<forall>k'. map_of data k' = Some (Max (snd ` set data)) \<longrightarrow> k \<le> k')))"
  using lexicographic_min_least[of data] by (simp add: lexicographic_min_def)

theorem lexicographic_min_spec_witness:
  "dict_ok [(''/b'', 2::int), (''/c'', 1), (''/a'', 2)]
   \<and> lexicographic_min [(''/b'', 2), (''/c'', 1), (''/a'', 2)] = PyStr ''/a''"
proof -
  let ?d = "[(''/b'', 2::int), (''/c'', 1), (''/a'', 2)]"
  have ok: "dict_ok ?d" by (simp add: dict_ok_def)
  have m: "Max (snd ` set ?d) = 2" by simp
  from lexicographic_min_spec[of ?d] ok obtain k where
    k: "lexicographic_min ?d = PyStr k" "map_of ?d k = Some (Max (snd ` set ?d))"
       "\<forall>k'. map_of ?d k' = Some (Max (snd ` set ?d)) \<longrightarrow> k \<le> k'"
    by auto
  have "map_of ?d ''/a'' = Some (Max (snd ` set ?d))" unfolding m by simp
  with k(3) have le: "k \<le> ''/a''" by blast
  from k(2) have "k = ''/b'' \<or> k = ''/a''" unfolding m by (simp split: if_splits)
  with le have "k = ''/a''" by auto
  with k(1) ok show ?thesis by simp
qed

subsection \<open>The counting statistics do not depend on the order of the updates\<close>

lemma map_of_dict_set: "map_of (dict_set d k v) = (map_of d)(k \<mapsto> v)"
  by (induction d) (auto simp: fun_eq_iff)

lemma keys_dict_set:
  "map fst (dict_set d k v) = (if k \<in> fst ` set d then map fst d else map fst d @ [k])"
proof (induction d)
  case Nil
  then show ?case by simp
next
  case (Cons a d)
  obtain k' v' where a: "a = (k', v')" by (cases a)
  show ?case using Cons by (force simp: a)
qed

lemma dict_ok_dict_set: "dict_ok d \<Longrightarrow> dict_ok (dict_set d k v)"
  by (simp add: dict_ok_def keys_dict_set)

lemma map_of_counter_inc: "map_of (counter_inc d k) = bump (map_of d) k"
  by (auto simp: counter_inc_def defaultdict_get_def map_of_dict_set bump_def fun_eq_iff
      map_add_def split: option.splits)

lemma dict_ok_counter_inc: "dict_ok d \<Longrightarrow> dict_ok (counter_inc d k)"
  by (auto simp: counter_inc_def defaultdict_get_def dict_ok_def keys_dict_set map_of_eq_None_iff
      split: option.splits)

lemma dict_ok_counts: "dict_ok d \<Longrightarrow> dict_ok (foldl counter_inc d us)"
  by (induction us arbitrary: d) (simp_all add: dict_ok_counter_inc)

lemma map_of_counts: "map_of (foldl counter_inc d us) = fold (\<lambda>k m. bump m k) us (map_of d)"
  by (induction us arbitrary: d) (simp_all add: map_of_counter_inc)

lemma bump_commute: "bump (bump m a) b = bump (bump m b) a"
  by (auto simp: bump_def fun_eq_iff)

lemma map_of_counts_perm:
  assumes "mset us = mset vs"
  shows "map_of (foldl counter_inc d us) = map_of (foldl counter_inc d vs)"
proof -
  have "fold (\<lambda>k m. bump m k) us = fold (\<lambda>k m. bump m k) vs"
    by (rule fold_multiset_equiv[OF _ assms]) (simp add: fun_eq_iff bump_commute)
  then show ?thesis by (simp add: map_of_counts)
qed

lemma lexicographic_min_cong:
  assumes "dict_ok d1" and "dict_ok d2" and "map_of d1 = map_of d2"
  shows "lexicographic_min d1 = lexicographic_min d2"
proof -
  have s: "set d1 = set d2"
    using assms by (simp add: dict_ok_def map_of_inject_set)
  show ?thesis
  proof (cases "d1 = []")
    case True
    with s have "d2 = []" by auto
    with True show ?thesis by simp
  next
    case False
    with s have ne2: "d2 \<noteq> []" by auto
    have "set (map fst d1) = set (map fst d2)" using s by simp
    then have "mset (map fst d1) = mset (map fst d2)"
      using assms(1,2) unfolding dict_ok_def by (simp only: set_eq_iff_mset_eq_distinct)
    then have "sort (map fst d1) = sort (map fst d2)"
      by (intro properties_for_sort) simp_all
    then show ?thesis
      by (simp add: lexicographic_min_nonempty[OF False] lexicographic_min_nonempty[OF ne2]
          s first_key_with_find assms(3))
  qed
qed

lemma counts_value_perm:
  assumes "dict_ok d" and "mset us = mset vs"
  shows "lexicographic_min (foldl counter_inc d us) = lexicographic_min (foldl counter_inc d vs)"
  by (intro lexicographic_min_cong dict_ok_counts assms map_of_counts_perm)

lemma by_day_updates:
  "MostActiveClientByDayStat_updates s us =
     s\<lparr>by_day_clients :=
         foldl counter_inc (by_day_clients s)
           (map snd (filter (\<lambda>u. fst u = by_day_date s) us))\<rparr>"
proof (induction us rule: rev_induct)
  case Nil
  then show ?case by (simp add: MostActiveClientByDayStat_updates_def)
next
  case (snoc u us)
  obtain d c where u: "u = (d, c)" by (cases u)
  have "MostActiveClientByDayStat_updates s (us @ [u]) =
      MostActiveClientByDayStat_update (MostActiveClientByDayStat_updates s us) d c"
    by (simp add: MostActiveClientByDayStat_updates_def u)
  then show ?case
    by (simp add: snoc u MostActiveClientByDayStat_update_def)
qed

text \<open>
  C4. For each of \<^verbatim>\<open>MostPopularPageStat\<close>, \<^verbatim>\<open>MostActiveClientStat\<close>,
  \<^verbatim>\<open>MostPopularBrowserStat\<close> and \<^verbatim>\<open>MostActiveClientByDayStat\<close>, from any state, two
  sequences of \<^verbatim>\<open>update\<close> calls that are permutations of each other lead to the same
  \<^verbatim>\<open>value()\<close>: the value depends on the counts, not on the order in which the keys were
  inserted or incremented.
\<close>

theorem popularity_order_independent:
  "(dict_ok pages \<longrightarrow> mset us = mset vs \<longrightarrow>
      MostPopularPageStat_value (foldl MostPopularPageStat_update pages us) =
      MostPopularPageStat_value (foldl MostPopularPageStat_update pages vs))
   \<and> (dict_ok clients \<longrightarrow> mset us = mset vs \<longrightarrow>
      MostActiveClientStat_value (foldl MostActiveClientStat_update clients us) =
      MostActiveClientStat_value (foldl MostActiveClientStat_update clients vs))
   \<and> (dict_ok browsers \<longrightarrow> mset us = mset vs \<longrightarrow>
      MostPopularBrowserStat_value (foldl MostPopularBrowserStat_update browsers us) =
      MostPopularBrowserStat_value (foldl MostPopularBrowserStat_update browsers vs))
   \<and> (dict_ok (by_day_clients s) \<longrightarrow> mset ds = mset es \<longrightarrow>
      MostActiveClientByDayStat_value (MostActiveClientByDayStat_updates s ds) =
      MostActiveClientByDayStat_value (MostActiveClientByDayStat_updates s es))"
proof -
  have p: "MostPopularPageStat_update = counter_inc"
    by (intro ext) (simp add: MostPopularPageStat_update_def)
  have c: "MostActiveClientStat_update = counter_inc"
    by (intro ext) (simp add: MostActiveClientStat_update_def)
  have b: "MostPopularBrowserStat_update = counter_inc"
    by (intro ext) (simp add: MostPopularBrowserStat_update_def)
  have day: "MostActiveClientByDayStat_value (MostActiveClientByDayStat_updates s ds) =
      MostActiveClientByDayStat_value (MostActiveClientByDayStat_updates s es)"
    if ok: "dict_ok (by_day_clients s)" and perm: "mset ds = mset es"
  proof -
    let ?f = "\<lambda>xs. map snd (filter (\<lambda>u. fst u = by_day_date s) xs)"
    from perm have "mset (?f ds) = mset (?f es)" by simp
    from counts_value_perm[OF ok this] show ?thesis
      by (simp add: by_day_updates MostActiveClientByDayStat_value_def)
  qed
  show ?thesis
    unfolding p c b MostPopularPageStat_value_def MostActiveClientStat_value_def
      MostPopularBrowserStat_value_def
    using counts_value_perm day by blast
qed

theorem popularity_order_independent_witness:
  "dict_ok ([] :: (string, int) dict)
   \<and> mset [''/b'', ''/a'', ''/a'', ''/b''] = mset [''/a'', ''/b'', ''/b'', ''/a'']
   \<and> MostPopularPageStat_value
        (foldl MostPopularPageStat_update [] [''/b'', ''/a'', ''/a'', ''/b'']) =
      MostPopularPageStat_value
        (foldl MostPopularPageStat_update [] [''/a'', ''/b'', ''/b'', ''/a''])
   \<and> foldl MostPopularPageStat_update [] [''/b'', ''/a'', ''/a'', ''/b''] \<noteq>
      foldl MostPopularPageStat_update [] [''/a'', ''/b'', ''/b'', ''/a'']"
proof -
  have ok: "dict_ok ([] :: (string, int) dict)" by (simp add: dict_ok_def)
  have perm: "mset [''/b'', ''/a'', ''/a'', ''/b''] = mset [''/a'', ''/b'', ''/b'', ''/a'']"
    by simp
  have diff: "foldl MostPopularPageStat_update [] [''/b'', ''/a'', ''/a'', ''/b''] \<noteq>
      foldl MostPopularPageStat_update [] [''/a'', ''/b'', ''/b'', ''/a'']"
    by (simp add: MostPopularPageStat_update_def counter_inc_def defaultdict_get_def)
  from popularity_order_independent[of "[]" "[''/b'', ''/a'', ''/a'', ''/b'']"
      "[''/a'', ''/b'', ''/b'', ''/a'']" "[]" "[]"
      "MostActiveClientByDayStat_init \<lparr>year = 2012, month = 7, day = 8\<rparr>" "[]" "[]"]
    ok perm diff show ?thesis by blast
qed

subsection \<open>The page with the slowest average\<close>






subsection \<open>The first match of the pattern\<close>

text \<open>
  How the parts of a pattern find their first match: a part that has one way to match
  passes the input on, and a greedy repetition tries its candidates from the longest.
\<close>

lemma first_of_simps [simp]:
  "first_of [] = None" "first_of (x # xs) = Some x"
  by (simp_all add: first_of_def)

lemma first_of_append: "first_of (xs @ ys) = (if xs = [] then first_of ys else first_of xs)"
  by (cases xs) simp_all

lemma first_of_Some_nonempty: "first_of xs = Some y \<Longrightarrow> xs \<noteq> []"
  by (cases xs) simp_all

lemma re_match_first_of: "re_match p s = map_option fst (first_of (p s))"
  by (auto simp: re_match_def first_of_def split: list.splits)

lemma rx_bind_return [simp]: "rx_bind (rx_return a) f s = f a s"
  by (simp add: rx_bind_def rx_return_def)

lemma concat_map_concat:
  "concat (map g (concat xss)) = concat (map (\<lambda>xs. concat (map g xs)) xss)"
  by (induction xss) simp_all

lemma rx_then_assoc: "rx_then (rx_then p q) r = rx_then p (rx_then q r)"
  by (intro ext) (simp add: rx_then_def rx_bind_def concat_map_concat split_def comp_def)

lemma rx_bind_then: "rx_bind (rx_then p q) f = rx_then p (rx_bind q f)"
  by (intro ext) (simp add: rx_then_def rx_bind_def concat_map_concat split_def comp_def)

lemma rx_then_return: "rx_then (rx_return a) q = q"
  by (intro ext) (simp add: rx_then_def)

lemma rx_then_seq_Nil: "rx_then (rx_seq []) q = q"
  by (intro ext) (simp add: rx_then_def)

lemma rx_then_seq_Cons: "rx_then (rx_seq (p # ps)) q = rx_then p (rx_then (rx_seq ps) q)"
  by (simp add: rx_then_assoc)

lemma rx_then_char_Cons: "rx_then (rx_char P) q (c # r) = (if P c then q r else [])"
  by (simp add: rx_then_def rx_bind_def rx_char_def)

lemma rx_then_char_Nil: "rx_then (rx_char P) q [] = []"
  by (simp add: rx_then_def rx_bind_def rx_char_def)

lemma rx_then_lit_Nil: "rx_then (rx_lit []) q s = q s"
  by (simp add: rx_then_def rx_bind_def rx_lit_def)

lemma rx_then_lit_Cons:
  "rx_then (rx_lit (a # w)) q (c # r) = (if a = c then rx_then (rx_lit w) q r else [])"
  by (auto simp add: rx_then_def rx_bind_def rx_lit_def)

lemma rx_then_lit_fail:
  "s = [] \<or> hd s \<noteq> a \<Longrightarrow> rx_then (rx_lit (a # w)) q s = []"
  by (cases s) (auto simp add: rx_then_def rx_bind_def rx_lit_def)

text \<open>The candidates of a greedy repetition.\<close>

lemma rx_bind_group_repeat:
  "rx_bind (rx_group (rx_repeat lo hi P)) f s =
     concat (map (\<lambda>k. f (take k s) (drop k s))
       (rev [lo ..< Suc (case hi of None \<Rightarrow> length (takeWhile P s)
                           | Some h \<Rightarrow> min h (length (takeWhile P s)))]))"
proof -
  let ?u = "case hi of None \<Rightarrow> length (takeWhile P s)
                           | Some h \<Rightarrow> min h (length (takeWhile P s))"
  have le: "k \<le> length s" if "k < Suc ?u" for k
  proof -
    have "?u \<le> length (takeWhile P s)" by (simp split: option.splits)
    also have "\<dots> \<le> length s" by (rule length_takeWhile_le)
    finally show ?thesis using that by simp
  qed
  have "rx_group (rx_repeat lo hi P) s = map (\<lambda>k. (take k s, drop k s)) (rev [lo ..< Suc ?u])"
    unfolding rx_group_def rx_repeat_def Let_def map_map comp_def
  proof (rule map_cong[OF refl])
    fix k assume "k \<in> set (rev [lo ..< Suc ?u])"
    then have "k < Suc ?u" by (simp del: upt_Suc)
    then have "k \<le> length s" by (rule le)
    then have "length s - (length s - k) = k" by simp
    then show "(case ((), drop k s) of (a, r) \<Rightarrow> (take (length s - length r) s, r)) =
        (take k s, drop k s)" by simp
  qed
  then show ?thesis by (simp add: rx_bind_def comp_def)
qed

lemma rx_then_repeat:
  "rx_then (rx_repeat lo hi P) q s =
     concat (map (\<lambda>k. q (drop k s))
       (rev [lo ..< Suc (case hi of None \<Rightarrow> length (takeWhile P s)
                           | Some h \<Rightarrow> min h (length (takeWhile P s)))]))"
  by (simp add: rx_then_def rx_bind_def rx_repeat_def Let_def comp_def)

lemma first_of_candidates:
  assumes "lo \<le> n" and "n \<le> u"
    and "\<And>k. n < k \<Longrightarrow> k \<le> u \<Longrightarrow> g k = []"
    and "g n \<noteq> []"
  shows "first_of (concat (map g (rev [lo ..< Suc u]))) = first_of (g n)"
proof -
  have "[lo ..< Suc u] = [lo ..< n] @ n # [Suc n ..< Suc u]"
  proof -
    have "[lo ..< n + (Suc u - n)] = [lo ..< n] @ [n ..< n + (Suc u - n)]"
      using assms(1) by (rule upt_add_eq_append)
    then have "[lo ..< Suc u] = [lo ..< n] @ [n ..< Suc u]"
      using assms(2) by simp
    then show ?thesis using assms(2) by (simp add: upt_conv_Cons)
  qed
  then have "rev [lo ..< Suc u] = rev [Suc n ..< Suc u] @ n # rev [lo ..< n]" by simp
  moreover have "concat (map g (rev [Suc n ..< Suc u])) = []"
    using assms(3) by auto
  ultimately show ?thesis using assms(4) by (simp add: first_of_append)
qed

lemma takeWhile_run:
  assumes "\<forall>c \<in> set xs. P c"
  shows "length xs \<le> length (takeWhile P (xs @ r))"
  using assms by (simp add: takeWhile_append2)

lemma takeWhile_run_exact:
  assumes "\<forall>c \<in> set xs. P c" and "r = [] \<or> \<not> P (hd r)"
  shows "length (takeWhile P (xs @ r)) = length xs"
proof -
  have "takeWhile P (xs @ r) = xs"
    using assms by (cases r) (simp_all add: takeWhile_append2 takeWhile_tail)
  then show ?thesis by simp
qed

text \<open>A greedy repetition whose longest candidate lets the rest of the pattern match.\<close>

lemma first_group_repeat_greedy:
  assumes "s = xs @ r" and "\<forall>c \<in> set xs. P c" and "r = [] \<or> \<not> P (hd r)"
    and "lo \<le> length xs" and "case hi of None \<Rightarrow> True | Some h \<Rightarrow> length xs \<le> h"
    and "first_of (f xs r) = Some y"
  shows "first_of (rx_bind (rx_group (rx_repeat lo hi P)) f s) = Some y"
proof -
  have run: "length (takeWhile P s) = length xs"
    unfolding assms(1) using assms(2,3) by (rule takeWhile_run_exact)
  have tp: "(case hi of None \<Rightarrow> length (takeWhile P s)
      | Some h \<Rightarrow> min h (length (takeWhile P s))) = length xs"
    using assms(5) by (simp add: run split: option.splits)
  have "first_of (rx_bind (rx_group (rx_repeat lo hi P)) f s) =
      first_of (f (take (length xs) s) (drop (length xs) s))"
    unfolding rx_bind_group_repeat tp
    using assms(4,6) by (intro first_of_candidates) (auto simp: assms(1) dest: first_of_Some_nonempty)
  then show ?thesis using assms(6) by (simp add: assms(1))
qed

lemma first_repeat_greedy:
  assumes "s = xs @ r" and "\<forall>c \<in> set xs. P c" and "r = [] \<or> \<not> P (hd r)"
    and "lo \<le> length xs" and "case hi of None \<Rightarrow> True | Some h \<Rightarrow> length xs \<le> h"
    and "first_of (q r) = Some y"
  shows "first_of (rx_then (rx_repeat lo hi P) q s) = Some y"
proof -
  have "rx_then (rx_repeat lo hi P) q s = rx_bind (rx_group (rx_repeat lo hi P)) (\<lambda>_. q) s"
    by (simp add: rx_then_repeat rx_bind_group_repeat)
  then show ?thesis using first_group_repeat_greedy[OF assms(1-5), of "\<lambda>_. q"] assms(6) by simp
qed

text \<open>
  A greedy repetition followed by a literal character that does not occur later in the
  input: every longer candidate fails at once.
\<close>

lemma drop_hd_notin:
  assumes "a \<notin> set r"
  shows "drop j r = [] \<or> hd (drop j r) \<noteq> a"
  by (metis assms hd_in_set in_set_dropD)

lemma first_group_repeat_lit:
  assumes "s = xs @ a # r" and "lo \<le> length xs" and "\<forall>c \<in> set xs. P c" and "a \<notin> set r"
    and "first_of (g xs r) = Some y"
  shows "first_of (rx_bind (rx_group (rx_repeat lo None P))
           (\<lambda>x. rx_then (rx_lit [a]) (g x)) s) = Some y"
proof -
  let ?f = "\<lambda>x. rx_then (rx_lit [a]) (g x)"
  let ?n = "length xs"
  have run: "?n \<le> length (takeWhile P s)"
    unfolding assms(1) using assms(3) by (rule takeWhile_run)
  have fail: "?f (take k s) (drop k s) = []" if "?n < k" for k
  proof -
    have "drop k s = drop (k - Suc ?n) r" using that by (simp add: assms(1) drop_Cons')
    then show ?thesis using drop_hd_notin[OF assms(4), of "k - Suc ?n"]
      by (intro rx_then_lit_fail) simp
  qed
  have here: "?f (take ?n s) (drop ?n s) = g xs r"
    by (simp add: assms(1) rx_then_lit_Cons rx_then_lit_Nil)
  have "first_of (rx_bind (rx_group (rx_repeat lo None P)) ?f s) =
      first_of (?f (take ?n s) (drop ?n s))"
    unfolding rx_bind_group_repeat option.case
    using assms(2,5) run fail
    by (intro first_of_candidates) (auto simp: here Suc_le_eq dest: first_of_Some_nonempty)
  then show ?thesis using assms(5) by (simp add: here)
qed

text \<open>
  A greedy repetition that also swallows the character after the run and has to give
  it back to the literal that follows.
\<close>

lemma first_repeat_give_back:
  assumes "s = xs @ a # b # r" and "lo \<le> length xs" and "\<forall>c \<in> set xs. P c"
    and "P a" and "\<not> P b" and "a \<noteq> b"
    and "first_of (q r) = Some y"
  shows "first_of (rx_then (rx_repeat lo None P) (rx_then (rx_lit [a, b]) q) s) = Some y"
proof -
  let ?q = "rx_then (rx_lit [a, b]) q"
  let ?n = "length xs"
  have "takeWhile P s = xs @ [a]"
    using assms(3,4,5) by (simp add: assms(1) takeWhile_append2)
  then have run: "length (takeWhile P s) = Suc ?n" by simp
  have fail: "?q (drop k s) = []" if "?n < k" "k \<le> Suc ?n" for k
  proof -
    from that have "k = Suc ?n" by simp
    then have "drop k s = b # r" by (simp add: assms(1))
    then show ?thesis using assms(6) by (simp add: rx_then_lit_Cons)
  qed
  have here: "?q (drop ?n s) = q r"
    by (simp add: assms(1) rx_then_lit_Cons rx_then_lit_Nil)
  have "first_of (rx_then (rx_repeat lo None P) ?q s) = first_of (?q (drop ?n s))"
    unfolding rx_then_repeat option.case run
    using assms(2,7) fail
    by (intro first_of_candidates) (auto simp: here Suc_le_eq dest: first_of_Some_nonempty)
  then show ?thesis using assms(7) by (simp add: here)
qed

lemma first_bind:
  assumes "first_of (p s) = Some (a, r)" and "first_of (f a r) = Some y"
  shows "first_of (rx_bind p f s) = Some y"
proof -
  obtain cs where "p s = (a, r) # cs" using assms(1) by (cases "p s") simp_all
  then show ?thesis using assms(2)
    by (auto simp add: rx_bind_def first_of_append dest: first_of_Some_nonempty)
qed

lemma first_group:
  assumes "first_of (p (xs @ r)) = Some (a, r)"
  shows "first_of (rx_group p (xs @ r)) = Some (xs, r)"
proof -
  obtain cs where "p (xs @ r) = (a, r) # cs" using assms by (cases "p (xs @ r)") simp_all
  then show ?thesis by (simp add: rx_group_def)
qed

text \<open>The four pieces of \<^verbatim>\<open>PATTERN\<close> on a line of the usual shape, from the last to the first.\<close>

lemma is_digit_not_space: "is_digit c \<Longrightarrow> not_space c"
  by (auto simp: is_digit_def not_space_def is_space_def)

lemma is_space_not_digit: "is_space c \<Longrightarrow> \<not> is_digit c"
  using is_digit_not_space by (auto simp: not_space_def)

lemma time_group_Some:
  assumes "is_space sp" and "t \<noteq> []" and "\<forall>c \<in> set t. is_digit c"
    and "rest = [] \<or> \<not> is_digit (hd rest)"
  shows "first_of (time_group (sp # t @ rest)) = Some (Some t, rest)"
proof -
  have "first_of (rx_bind (rx_group (rx_repeat 1 None is_digit)) (\<lambda>a. rx_return (Some a))
      (t @ rest)) = Some (Some t, rest)"
    using assms(2-4)
    by (intro first_group_repeat_greedy[where xs = t and r = rest])
       (simp_all add: rx_return_def Suc_le_eq)
  then have A: "first_of (rx_bind (rx_then (rx_char is_space)
      (rx_group (rx_repeat 1 None is_digit))) (\<lambda>a. rx_return (Some a)) (sp # t @ rest))
      = Some (Some t, rest)"
    by (simp add: rx_bind_then rx_then_char_Cons assms(1))
  show ?thesis
    using A first_of_Some_nonempty[OF A]
    by (simp add: time_group_def rx_opt_def rx_alt_def first_of_append)
qed

lemma time_group_None:
  assumes "tail = [] \<or> \<not> is_space (hd tail) \<or> tl tail = [] \<or> \<not> is_digit (hd (tl tail))"
  shows "first_of (time_group tail) = Some (None, tail)"
proof -
  have "rx_then (rx_char is_space) (rx_group (rx_repeat 1 None is_digit)) tail = []"
  proof (cases tail)
    case Nil
    then show ?thesis by (simp add: rx_then_char_Nil)
  next
    case (Cons c r)
    show ?thesis
    proof (cases "is_space c")
      case True
      with assms Cons have "r = [] \<or> \<not> is_digit (hd r)" by simp
      then have "takeWhile is_digit r = []" by (cases r) simp_all
      then have "rx_repeat 1 None is_digit r = []" by (simp add: rx_repeat_def)
      then show ?thesis by (simp add: Cons rx_then_char_Cons rx_group_def)
    next
      case False
      then show ?thesis by (simp add: Cons rx_then_char_Cons)
    qed
  qed
  then have "rx_bind (rx_then (rx_char is_space) (rx_group (rx_repeat 1 None is_digit)))
      (\<lambda>a. rx_return (Some a)) tail = []"
    by (simp add: rx_bind_def)
  then show ?thesis
    by (simp add: time_group_def rx_opt_def rx_alt_def rx_return_def)
qed

lemma PATTERN_4_first:
  assumes "ua \<noteq> []" and "\<forall>c \<in> set ua. any_char c" and "dquote \<notin> set tail"
    and "first_of (time_group tail) = Some (t, rest)"
  shows "first_of (PATTERN_4 ip date page (ua @ dquote # tail)) =
     Some (\<lparr>raw_IP = ip, raw_date = date, raw_page = page, raw_User_Agent = ua,
            raw_time = t\<rparr>, rest)"
  unfolding PATTERN_4_def
proof (rule first_group_repeat_lit[where xs = ua and r = tail, OF refl _ assms(2,3)])
  show "1 \<le> length ua" using assms(1) by (simp add: Suc_le_eq)
  show "first_of (rx_bind time_group (\<lambda>time. rx_return
      \<lparr>raw_IP = ip, raw_date = date, raw_page = page, raw_User_Agent = ua,
         raw_time = time\<rparr>) tail) =
     Some (\<lparr>raw_IP = ip, raw_date = date, raw_page = page, raw_User_Agent = ua,
            raw_time = t\<rparr>, rest)"
    by (rule first_bind[where p = time_group and s = tail, OF assms(4)])
       (simp add: rx_return_def)
qed

lemma class_facts:
  "not_space dquote" "is_space (CHR 0x20)" "\<not> is_digit (CHR 0x20)" "dquote \<noteq> CHR 0x20"
  "\<not> not_space (CHR 0x20)" "any_char (CHR 0x20)" "\<not> is_digit CHR ''.''"
  "dquote \<noteq> CHR '']''" "\<not> is_space dquote"
  by (simp_all add: not_space_def is_space_def is_digit_def dquote_def any_char_def)

lemma PATTERN_3_first:
  assumes path: "path \<noteq> []" "\<forall>c \<in> set path. not_space c"
    and sep: "is_space sep" "any_char sep"
    and ver: "ver \<noteq> []" "\<forall>c \<in> set ver. not_space c"
    and st: "st \<noteq> []" "\<forall>c \<in> set st. is_digit c"
    and sz: "sz \<noteq> []" "\<forall>c \<in> set sz. is_digit c"
    and ref: "\<forall>c \<in> set ref. not_space c"
    and sp: "is_space sp"
    and rest: "first_of (PATTERN_4 ip date path rest4) = Some y"
  shows "first_of (PATTERN_3 ip date
           (path @ sep # ver @ dquote # CHR 0x20 # st @ CHR 0x20 # sz @ CHR 0x20 # dquote
            # ref @ dquote # sp # dquote # rest4)) = Some y"
proof -
  let ?T9 = "rx_then (rx_lit [dquote]) (PATTERN_4 ip date path)"
  let ?T8 = "rx_then (rx_char is_space) ?T9"
  let ?T7 = "rx_then (rx_repeat 1 None not_space) ?T8"
  let ?T6 = "rx_then (rx_lit [CHR 0x20, dquote]) ?T7"
  let ?T5 = "rx_then (rx_repeat 1 None is_digit) ?T6"
  let ?T4 = "rx_then (rx_lit [CHR 0x20]) ?T5"
  let ?T3 = "rx_then (rx_repeat 1 None is_digit) ?T4"
  let ?T2 = "rx_then (rx_lit [dquote, CHR 0x20]) ?T3"
  let ?T1 = "rx_then (rx_repeat 1 None not_space) ?T2"
  let ?T0 = "rx_then (rx_char any_char) ?T1"
  let ?r8 = "sp # dquote # rest4"
  let ?r7 = "ref @ dquote # ?r8"
  let ?r5 = "sz @ CHR 0x20 # dquote # ?r7"
  let ?r3 = "st @ CHR 0x20 # ?r5"
  let ?r1 = "ver @ dquote # CHR 0x20 # ?r3"
  have t8: "first_of (?T8 ?r8) = Some y"
    using rest sp by (simp add: rx_then_char_Cons rx_then_lit_Cons rx_then_lit_Nil)
  have t7: "first_of (?T7 ?r7) = Some y"
    by (rule first_repeat_greedy[where xs = "ref @ [dquote]" and r = ?r8])
       (use ref sp t8 in \<open>simp_all add: class_facts not_space_def\<close>)
  have t5: "first_of (?T5 ?r5) = Some y"
    by (rule first_repeat_greedy[where xs = sz and r = "CHR 0x20 # dquote # ?r7"])
       (use sz t7 in \<open>simp_all add: class_facts Suc_le_eq rx_then_lit_Cons rx_then_lit_Nil\<close>)
  have t3: "first_of (?T3 ?r3) = Some y"
    by (rule first_repeat_greedy[where xs = st and r = "CHR 0x20 # ?r5"])
       (use st t5 in \<open>simp_all add: class_facts Suc_le_eq rx_then_lit_Cons rx_then_lit_Nil\<close>)
  have t1: "first_of (?T1 ?r1) = Some y"
    by (rule first_repeat_give_back[where xs = ver and r = ?r3 and a = dquote and b = "CHR 0x20"])
       (use ver t3 in \<open>simp_all add: class_facts Suc_le_eq\<close>)
  have t0: "first_of (?T0 (sep # ?r1)) = Some y"
    using t1 sep by (simp add: rx_then_char_Cons)
  show ?thesis
    unfolding PATTERN_3_def
    by (rule first_group_repeat_greedy[where xs = path and r = "sep # ?r1"])
       (use path sep t0 in \<open>simp_all add: Suc_le_eq not_space_def rx_then_assoc rx_then_return\<close>)
qed

lemma http_method_first:
  assumes "m \<in> set methods"
  shows "rx_then http_method q (m @ r) = q r"
  using assms
  by (auto simp add: methods_def http_method_def rx_alt_def rx_lit_def rx_then_def rx_bind_def)

lemma PATTERN_2_first:
  assumes dt: "dt \<noteq> []" "\<forall>c \<in> set dt. any_char c"
    and sp: "is_space sp1" "is_space sp2"
    and m: "m \<in> set methods"
    and no: "CHR '']'' \<notin> set (sp1 # dquote # m @ sp2 # rest3)"
    and rest: "first_of (PATTERN_3 ip dt rest3) = Some y"
  shows "first_of (PATTERN_2 ip (CHR ''['' # dt @ CHR '']'' # sp1 # dquote # m @ sp2 # rest3))
     = Some y"
proof -
  let ?g = "\<lambda>date. rx_then (rx_char is_space) (rx_then (rx_lit [dquote])
     (rx_then http_method (rx_then (rx_char is_space) (PATTERN_3 ip date))))"
  have eq: "PATTERN_2 ip (CHR ''['' # s) =
      rx_bind (rx_group (rx_repeat 1 None any_char)) (\<lambda>x. rx_then (rx_lit [CHR '']'']) (?g x)) s"
    for s
    unfolding PATTERN_2_def rx_seq.simps rx_then_assoc rx_then_return
    by (simp add: rx_then_lit_Cons rx_then_lit_Nil)
  have g: "first_of (?g dt (sp1 # dquote # m @ sp2 # rest3)) = Some y"
    using sp rest by (simp add: rx_then_char_Cons rx_then_lit_Cons rx_then_lit_Nil
        http_method_first[OF m])
  show ?thesis
    unfolding eq
    by (rule first_group_repeat_lit[where xs = dt and r = "sp1 # dquote # m @ sp2 # rest3"
          and g = ?g, OF refl _ dt(2) no g])
       (use dt(1) in \<open>simp add: Suc_le_eq\<close>)
qed

lemma octet_first:
  assumes "w \<noteq> []" "length w \<le> 3" "\<forall>c \<in> set w. is_digit c"
    and "first_of (q r) = Some y"
  shows "first_of (rx_then octet_dot q (w @ CHR ''.'' # r)) = Some y"
  unfolding octet_dot_def rx_then_assoc
  by (rule first_repeat_greedy[where xs = w and r = "CHR ''.'' # r"])
     (use assms in \<open>simp_all add: class_facts Suc_le_eq rx_then_lit_Cons rx_then_lit_Nil\<close>)

lemma PATTERN_first:
  assumes a: "a \<noteq> []" "length a \<le> 3" "\<forall>c \<in> set a. is_digit c"
    and b: "b \<noteq> []" "length b \<le> 3" "\<forall>c \<in> set b. is_digit c"
    and c: "c \<noteq> []" "length c \<le> 3" "\<forall>c \<in> set c. is_digit c"
    and d: "d \<noteq> []" "length d \<le> 3" "\<forall>c \<in> set d. is_digit c"
    and sp: "is_space sp1" "is_space sp2" "is_space sp3"
    and rest: "first_of (PATTERN_2 (a @ CHR ''.'' # b @ CHR ''.'' # c @ CHR ''.'' # d) rest2)
                 = Some y"
  shows "first_of (PATTERN ((a @ CHR ''.'' # b @ CHR ''.'' # c @ CHR ''.'' # d)
           @ sp1 # CHR ''-'' # sp2 # CHR ''-'' # sp3 # rest2)) = Some y"
proof -
  let ?ip = "a @ CHR ''.'' # b @ CHR ''.'' # c @ CHR ''.'' # d"
  let ?r = "sp1 # CHR ''-'' # sp2 # CHR ''-'' # sp3 # rest2"
  let ?p = "rx_seq [octet_dot, octet_dot, octet_dot, rx_repeat 1 (Some 3) is_digit]"
  have d4: "first_of (rx_then (rx_repeat 1 (Some 3) is_digit) (rx_return ()) (d @ ?r))
      = Some ((), ?r)"
    by (rule first_repeat_greedy[where xs = d and r = ?r])
       (use d sp in \<open>simp_all add: is_space_not_digit Suc_le_eq rx_return_def\<close>)
  let ?q4 = "rx_then (rx_repeat 1 (Some 3) is_digit) (rx_return ())"
  have d3: "first_of (rx_then octet_dot ?q4 (c @ CHR ''.'' # d @ ?r)) = Some ((), ?r)"
    by (rule octet_first[where q = ?q4, OF c d4])
  have d2: "first_of (rx_then octet_dot (rx_then octet_dot ?q4)
      (b @ CHR ''.'' # c @ CHR ''.'' # d @ ?r)) = Some ((), ?r)"
    by (rule octet_first[where q = "rx_then octet_dot ?q4", OF b d3])
  have d1: "first_of (rx_then octet_dot (rx_then octet_dot (rx_then octet_dot ?q4))
      (a @ CHR ''.'' # b @ CHR ''.'' # c @ CHR ''.'' # d @ ?r)) = Some ((), ?r)"
    by (rule octet_first[where q = "rx_then octet_dot (rx_then octet_dot ?q4)", OF a d2])
  have "first_of (?p (?ip @ ?r)) = Some ((), ?r)"
    unfolding rx_seq.simps using d1 by simp
  then have grp: "first_of (rx_group ?p (?ip @ ?r)) = Some (?ip, ?r)"
    by (rule first_group)
  have k: "first_of (rx_then (rx_seq [rx_char is_space, rx_lit ''-'', rx_char is_space,
      rx_lit ''-'', rx_char is_space]) (PATTERN_2 ?ip) ?r) = Some y"
    unfolding rx_seq.simps rx_then_assoc rx_then_return
    using sp rest by (simp add: rx_then_char_Cons rx_then_lit_Cons rx_then_lit_Nil)
  show ?thesis
    unfolding PATTERN_def
    by (rule first_bind[where p = "rx_group ?p" and s = "?ip @ ?r" and a = ?ip and r = ?r
          and f = "\<lambda>ip. rx_then (rx_seq [rx_char is_space, rx_lit ''-'', rx_char is_space,
            rx_lit ''-'', rx_char is_space]) (PATTERN_2 ip)", OF grp k])
qed

lemma digit_facts:
  "is_digit c \<Longrightarrow> c \<noteq> CHR '']''" "is_digit c \<Longrightarrow> c \<noteq> dquote"
  by (auto simp: is_digit_def dquote_def)

lemma methods_no_bracket: "m \<in> set methods \<Longrightarrow> CHR '']'' \<notin> set m"
  by (auto simp: methods_def)

lemma PATTERN_render:
  assumes wf: "well_formed l"
  shows "first_of (PATTERN (render l)) =
     Some (\<lparr>raw_IP = ll_address l, raw_date = ll_timestamp l, raw_page = ll_path l,
            raw_User_Agent = ll_user_agent l, raw_time = ll_time l\<rparr>, ll_trailing l)"
proof -
  let ?time = "case ll_time l of None \<Rightarrow> [] | Some t \<Rightarrow> CHR 0x20 # t"
  let ?tail = "?time @ ll_trailing l"
  let ?r4 = "ll_user_agent l @ dquote # ?tail"
  let ?r3 = "ll_path l @ CHR 0x20 # ll_version l @ dquote # CHR 0x20 # ll_status l
      @ CHR 0x20 # ll_bytes l @ CHR 0x20 # dquote # ll_referrer l @ dquote # CHR 0x20
      # dquote # ?r4"
  let ?r2 = "CHR ''['' # ll_timestamp l @ CHR '']'' # CHR 0x20 # dquote # ll_method l
      @ CHR 0x20 # ?r3"
  let ?y = "(\<lparr>raw_IP = ll_address l, raw_date = ll_timestamp l, raw_page = ll_path l,
            raw_User_Agent = ll_user_agent l, raw_time = ll_time l\<rparr>, ll_trailing l)"
  from wf have oct: "octet_ok (ll_octet1 l)" "octet_ok (ll_octet2 l)" "octet_ok (ll_octet3 l)"
      "octet_ok (ll_octet4 l)"
    by (simp_all add: well_formed_def)
  from wf have ts: "ll_timestamp l \<noteq> []" "\<forall>c \<in> set (ll_timestamp l). any_char c"
    by (simp_all add: well_formed_def list_all_iff)
  from wf have m: "ll_method l \<in> set methods" by (simp add: well_formed_def)
  from wf have path: "ll_path l \<noteq> []" "\<forall>c \<in> set (ll_path l). not_space c"
      "CHR '']'' \<notin> set (ll_path l)"
    by (simp_all add: well_formed_def token_ok_def list_all_iff)
  from wf have ver: "ll_version l \<noteq> []" "\<forall>c \<in> set (ll_version l). not_space c"
      "CHR '']'' \<notin> set (ll_version l)"
    by (simp_all add: well_formed_def token_ok_def list_all_iff)
  from wf have st: "ll_status l \<noteq> []" "\<forall>c \<in> set (ll_status l). is_digit c"
    by (simp_all add: well_formed_def number_ok_def list_all_iff)
  from wf have sz: "ll_bytes l \<noteq> []" "\<forall>c \<in> set (ll_bytes l). is_digit c"
    by (simp_all add: well_formed_def number_ok_def list_all_iff)
  from wf have ref: "\<forall>c \<in> set (ll_referrer l). not_space c"
      "CHR '']'' \<notin> set (ll_referrer l)"
    by (simp_all add: well_formed_def token_ok_def list_all_iff)
  from wf have ua: "ll_user_agent l \<noteq> []" "\<forall>c \<in> set (ll_user_agent l). any_char c"
      "CHR '']'' \<notin> set (ll_user_agent l)"
    by (simp_all add: well_formed_def list_all_iff)
  from wf have tr: "dquote \<notin> set (ll_trailing l)" "CHR '']'' \<notin> set (ll_trailing l)"
    by (simp_all add: well_formed_def)
  from wf have tm: "case ll_time l of
            Some t \<Rightarrow> number_ok t \<and> (ll_trailing l = [] \<or> \<not> is_digit (hd (ll_trailing l)))
          | None \<Rightarrow> ll_trailing l = [] \<or> \<not> is_space (hd (ll_trailing l))
                    \<or> tl (ll_trailing l) = [] \<or> \<not> is_digit (hd (tl (ll_trailing l)))"
    by (simp add: well_formed_def)
  have tg: "first_of (time_group ?tail) = Some (ll_time l, ll_trailing l)"
  proof (cases "ll_time l")
    case None
    then show ?thesis using tm by (simp add: time_group_None)
  next
    case (Some t)
    with tm have "t \<noteq> []" "\<forall>c \<in> set t. is_digit c"
        "ll_trailing l = [] \<or> \<not> is_digit (hd (ll_trailing l))"
      by (simp_all add: number_ok_def list_all_iff)
    then have "first_of (time_group (CHR 0x20 # t @ ll_trailing l)) = Some (Some t, ll_trailing l)"
      by (intro time_group_Some) (simp_all add: class_facts)
    then show ?thesis by (simp add: Some)
  qed
  have time_set: "dquote \<notin> set ?time \<and> CHR '']'' \<notin> set ?time"
  proof (cases "ll_time l")
    case None
    then show ?thesis by simp
  next
    case (Some t)
    with tm have "\<forall>c \<in> set t. is_digit c" by (simp add: number_ok_def list_all_iff)
    then have "dquote \<notin> set t" "CHR '']'' \<notin> set t" using digit_facts by blast+
    then show ?thesis by (simp add: Some dquote_def)
  qed
  have no_q: "dquote \<notin> set ?tail" using time_set tr(1) by simp
  have d_nb: "CHR '']'' \<notin> set w" if "\<forall>c \<in> set w. is_digit c" for w
    using that digit_facts(1) by blast
  have no_b: "CHR '']'' \<notin> set (CHR 0x20 # dquote # ll_method l @ CHR 0x20 # ?r3)"
    using time_set tr(2) ua(3) ref(2) ver(3) path(3) d_nb[OF st(2)] d_nb[OF sz(2)]
      methods_no_bracket[OF m]
    by (simp add: dquote_def)
  have p4: "first_of (PATTERN_4 (ll_address l) (ll_timestamp l) (ll_path l) ?r4) = Some ?y"
    by (rule PATTERN_4_first[OF ua(1,2) no_q tg])
  have p3: "first_of (PATTERN_3 (ll_address l) (ll_timestamp l) ?r3) = Some ?y"
    by (rule PATTERN_3_first[OF path(1,2) class_facts(2,6) ver(1,2) st sz ref(1)
          class_facts(2) p4])
  have p2: "first_of (PATTERN_2 (ll_address l) ?r2) = Some ?y"
    by (rule PATTERN_2_first[OF ts class_facts(2) class_facts(2) m no_b p3])
  note o = oct[unfolded octet_ok_def list_all_iff]
  have p1: "first_of (PATTERN ((ll_octet1 l @ CHR ''.'' # ll_octet2 l @ CHR ''.''
      # ll_octet3 l @ CHR ''.'' # ll_octet4 l) @ CHR 0x20 # CHR ''-'' # CHR 0x20 # CHR ''-''
      # CHR 0x20 # ?r2)) = Some ?y"
  proof (rule PATTERN_first)
    show "first_of (PATTERN_2 (ll_octet1 l @ CHR ''.'' # ll_octet2 l @ CHR ''.''
      # ll_octet3 l @ CHR ''.'' # ll_octet4 l) ?r2) = Some ?y"
      using p2 by (simp add: ll_address_def)
  qed (use o in \<open>simp_all add: class_facts\<close>)
  have "render l = (ll_octet1 l @ CHR ''.'' # ll_octet2 l @ CHR ''.'' # ll_octet3 l
      @ CHR ''.'' # ll_octet4 l) @ CHR 0x20 # CHR ''-'' # CHR 0x20 # CHR ''-'' # CHR 0x20 # ?r2"
    by (cases "ll_time l") (simp_all add: render_def ll_address_def)
  with p1 show ?thesis by simp
qed

lemma re_match_render:
  assumes "well_formed l"
  shows "re_match PATTERN (render l) =
     Some \<lparr>raw_IP = ll_address l, raw_date = ll_timestamp l, raw_page = ll_path l,
           raw_User_Agent = ll_user_agent l, raw_time = ll_time l\<rparr>"
  by (simp add: re_match_first_of PATTERN_render[OF assms])

subsection \<open>Parsing lines of the usual shape\<close>

lemma parse_render:
  assumes "well_formed l"
  shows "parse strptime (render l) =
     (case strptime (ll_timestamp l) of
        Inl e \<Rightarrow> Inl e
      | Inr d \<Rightarrow>
          Inr (Some \<lparr>group_IP = ll_address l, group_date = d, group_page = ll_path l,
                     group_User_Agent = ll_user_agent l,
                     group_time = map_option py_int (ll_time l)\<rparr>))"
  by (simp add: parse_def re_match_render[OF assms] type_conversion_def map_option_case
      split: sum.splits option.splits)

lemma well_formed_graph_line: "well_formed graph_line"
  by (simp add: well_formed_def graph_line_def octet_ok_def number_ok_def token_ok_def
      methods_def is_digit_def is_space_def not_space_def any_char_def dquote_def)

lemma render_graph_line:
  \<open>render graph_line =
     ''192.168.74.83 - - [08/Jul/2012:06:31:57 +0600] "GET /img/graph.png HTTP/1.1" 304 211 "http://callider/menu-top.php" "Mozilla/5.0 (compatible; MSIE 9.0; Windows NT 6.1; WOW64; Trident/5.0)" 123''\<close>
  by (simp add: render_def graph_line_def ll_address_def dquote_def)

lemma strptime_graph_line:
  "strptime_date ''08/Jul/2012:06:31:57 +0600'' = Inr \<lparr>year = 2012, month = 7, day = 8\<rparr>"
  by code_simp

lemma strptime_bad_date: "strptime_date ''32/Jul/2012:06:31:57 +0600'' = Inl ValueError"
  by code_simp

lemma py_int_123: "py_int ''123'' = 123" "py_int ''0'' = 0"
  by (simp_all add: py_int_def digit_value_def)

lemma parse_graph_line: "parse strptime_date (render graph_line) = Inr (Some graph_group)"
  by (simp add: parse_render[OF well_formed_graph_line])
     (simp add: graph_line_def graph_group_def strptime_graph_line py_int_123 ll_address_def)

lemma garbage: \<open>re_match PATTERN ''192.fdfdfdfdfdfdfdfdf "fdfledfdfdffdfdfdfdfdf/1.1" 304 211 "http://callider/mefdfdfdfdfdfible; MSIE 9.0; Winfdfdfdfdfdf5.0)"'' = None\<close>
  by code_simp

subsection \<open>The captured path\<close>




subsection \<open>Lines that do not match\<close>

text \<open>
  C8. A line that does not match the pattern, which is when \<^verbatim>\<open>parse\<close> returns \<^verbatim>\<open>None\<close>,
  leaves the state of every statistic as it was, and \<^verbatim>\<open>add_line\<close> raises nothing.
\<close>

theorem unmatched_line_ignored:
  "(parse strptime line = Inr None \<longleftrightarrow> re_match PATTERN line = None)
   \<and> (parse strptime line = Inr None \<longrightarrow> add_line strptime st line = (None, st))"
  by (auto simp add: parse_def add_line_def split: option.splits sum.splits)

theorem unmatched_line_ignored_witness:
  \<open>parse strptime_date
     ''192.fdfdfdfdfdfdfdfdf "fdfledfdfdffdfdfdfdfdf/1.1" 304 211 "http://callider/mefdfdfdfdfdfible; MSIE 9.0; Winfdfdfdfdfdf5.0)"''
     = Inr None
   \<and> add_line strptime_date make_stat
     ''192.fdfdfdfdfdfdfdfdf "fdfledfdfdffdfdfdfdfdf/1.1" 304 211 "http://callider/mefdfdfdfdfdfible; MSIE 9.0; Winfdfdfdfdfdf5.0)"''
     = (None, make_stat)\<close>
  using unmatched_line_ignored[of strptime_date
      \<open>''192.fdfdfdfdfdfdfdfdf "fdfledfdfdffdfdfdfdfdf/1.1" 304 211 "http://callider/mefdfdfdfdfdfible; MSIE 9.0; Winfdfdfdfdfdf5.0)"''\<close>
      make_stat] garbage
  by simp

subsection \<open>Timestamps that cannot be converted\<close>

text \<open>
  C7. When a line matches the pattern and the conversion of its timestamp raises, the
  exception leaves \<^verbatim>\<open>parse\<close> and \<^verbatim>\<open>add_line\<close>, and the state of every statistic is as it
  was before the call: nothing is updated before the conversion.
\<close>

theorem bad_timestamp_propagates:
  "re_match PATTERN line = Some data \<longrightarrow> strptime (raw_date data) = Inl e \<longrightarrow>
     parse strptime line = Inl e \<and> add_line strptime st line = (Some e, st)"
  by (simp add: parse_def add_line_def type_conversion_def)

lemma well_formed_bad_date_line: "well_formed bad_date_line"
  using well_formed_graph_line
  by (simp add: well_formed_def bad_date_line_def graph_line_def any_char_def)

theorem bad_timestamp_propagates_witness:
  \<open>re_match PATTERN
     ''192.168.74.83 - - [32/Jul/2012:06:31:57 +0600] "GET /img/graph.png HTTP/1.1" 304 211 "http://callider/menu-top.php" "Mozilla/5.0 (compatible; MSIE 9.0; Windows NT 6.1; WOW64; Trident/5.0)" 123''
     = Some \<lparr>raw_IP = ''192.168.74.83'', raw_date = ''32/Jul/2012:06:31:57 +0600'',
             raw_page = ''/img/graph.png'',
             raw_User_Agent =
               ''Mozilla/5.0 (compatible; MSIE 9.0; Windows NT 6.1; WOW64; Trident/5.0)'',
             raw_time = Some ''123''\<rparr>
   \<and> strptime_date ''32/Jul/2012:06:31:57 +0600'' = Inl ValueError
   \<and> add_line strptime_date make_stat
     ''192.168.74.83 - - [32/Jul/2012:06:31:57 +0600] "GET /img/graph.png HTTP/1.1" 304 211 "http://callider/menu-top.php" "Mozilla/5.0 (compatible; MSIE 9.0; Windows NT 6.1; WOW64; Trident/5.0)" 123''
     = (Some ValueError, make_stat)\<close>
proof -
  have r: \<open>render bad_date_line =
     ''192.168.74.83 - - [32/Jul/2012:06:31:57 +0600] "GET /img/graph.png HTTP/1.1" 304 211 "http://callider/menu-top.php" "Mozilla/5.0 (compatible; MSIE 9.0; Windows NT 6.1; WOW64; Trident/5.0)" 123''\<close>
    by (simp add: render_def bad_date_line_def graph_line_def ll_address_def dquote_def)
  have m: "re_match PATTERN (render bad_date_line) =
     Some \<lparr>raw_IP = ''192.168.74.83'', raw_date = ''32/Jul/2012:06:31:57 +0600'',
             raw_page = ''/img/graph.png'',
             raw_User_Agent =
               ''Mozilla/5.0 (compatible; MSIE 9.0; Windows NT 6.1; WOW64; Trident/5.0)'',
             raw_time = Some ''123''\<rparr>"
    by (simp add: re_match_render[OF well_formed_bad_date_line])
       (simp add: bad_date_line_def graph_line_def ll_address_def)
  show ?thesis
    using bad_timestamp_propagates[of "render bad_date_line" _ strptime_date ValueError make_stat]
      m strptime_bad_date
    by (simp add: r)
qed

subsection \<open>Text after the match\<close>

lemma well_formed_trailing_line: "well_formed trailing_line"
  using well_formed_graph_line
  by (simp add: well_formed_def trailing_line_def graph_line_def is_digit_def dquote_def)

text \<open>
  C10. \<^verbatim>\<open>re.match\<close> matches the pattern at the start of the line and does not ask the
  match to reach the end: there is a line, a well-formed line of the tests followed by
  more text, for which \<^verbatim>\<open>parse\<close> returns a record, the same record as for the line
  without that text.
\<close>

theorem trailing_text_accepted:
  \<open>parse strptime_date
     ''192.168.74.83 - - [08/Jul/2012:06:31:57 +0600] "GET /img/graph.png HTTP/1.1" 304 211 "http://callider/menu-top.php" "Mozilla/5.0 (compatible; MSIE 9.0; Windows NT 6.1; WOW64; Trident/5.0)" 123''
     = Inr (Some graph_group)
   \<and> parse strptime_date
     (''192.168.74.83 - - [08/Jul/2012:06:31:57 +0600] "GET /img/graph.png HTTP/1.1" 304 211 "http://callider/menu-top.php" "Mozilla/5.0 (compatible; MSIE 9.0; Windows NT 6.1; WOW64; Trident/5.0)" 123''
      @ '' and more text'')
     = Inr (Some graph_group)\<close>
proof -
  have r: \<open>render trailing_line =
     ''192.168.74.83 - - [08/Jul/2012:06:31:57 +0600] "GET /img/graph.png HTTP/1.1" 304 211 "http://callider/menu-top.php" "Mozilla/5.0 (compatible; MSIE 9.0; Windows NT 6.1; WOW64; Trident/5.0)" 123''
      @ '' and more text''\<close>
    by (simp add: render_def trailing_line_def graph_line_def ll_address_def dquote_def)
  have "parse strptime_date (render trailing_line) = Inr (Some graph_group)"
    by (simp add: parse_render[OF well_formed_trailing_line])
       (simp add: trailing_line_def graph_line_def graph_group_def strptime_graph_line
          py_int_123 ll_address_def)
  then show ?thesis using parse_graph_line by (simp only: r render_graph_line)
qed

subsection \<open>The dispatch of \<^verbatim>\<open>Statistics.update\<close>\<close>

text \<open>
  A record without a response time updates the four counting statistics and leaves the
  three timed ones as they were; a record with a response time other than 0 feeds the
  three timed ones first.
\<close>

lemma Statistics_update_without_time:
  assumes "group_time g = None"
  shows "Statistics_update st g = (None, counted_updates st g)"
  by (simp add: Statistics_update_def assms)

lemma counted_updates_frame:
  "fastest_page (counted_updates st g) = fastest_page st"
  "slowest_page (counted_updates st g) = slowest_page st"
  "slowest_average_page (counted_updates st g) = slowest_average_page st"
  "most_popular_page (counted_updates st g) =
     MostPopularPageStat_update (most_popular_page st) (group_page g)"
  "most_active_client (counted_updates st g) =
     MostActiveClientStat_update (most_active_client st) (group_IP g)"
  "most_popular_browser (counted_updates st g) =
     MostPopularBrowserStat_update (most_popular_browser st) (group_User_Agent g)"
  "most_active_client_by_day (counted_updates st g) =
     MostActiveClientByDayStat_update (most_active_client_by_day st) (group_date g) (group_IP g)"
  by (simp_all add: counted_updates_def)

lemma Statistics_update_with_time:
  assumes "group_time g = Some t" and "t \<noteq> 0"
  shows "Statistics_update st g =
     (case timed_updates st t (group_page g) of
        (Some e, st') \<Rightarrow> (Some e, st')
      | (None, st') \<Rightarrow> (None, counted_updates st' g))"
  by (simp add: Statistics_update_def assms truthy_def split: prod.splits option.splits)

lemma timed_updates_feed:
  "fastest_page (snd (timed_updates st t p)) = FastestPageStat_update (fastest_page st) t p"
  "slowest_page (snd (timed_updates st t p)) = SlowestPageStat_update (slowest_page st) t p"
  "slowest_average_page (snd (timed_updates st t p)) =
     snd (SlowestAveragePageStat_update (slowest_average_page st) t p)"
  by (simp_all add: timed_updates_def split_def Let_def)

lemma Statistics_update_zero_time:
  assumes "group_time g = Some 0"
  shows "Statistics_update st g = (None, counted_updates st g)"
  by (simp add: Statistics_update_def assms truthy_def)

lemma well_formed_zero_time_line: "well_formed zero_time_line"
  using well_formed_graph_line
  by (simp add: well_formed_def zero_time_line_def graph_line_def number_ok_def is_digit_def)

text \<open>
  C1 says that the three timed statistics are fed exactly when the record has a
  response time. A line whose response time is 0 is parsed to a record with the
  response time 0, but \<^verbatim>\<open>if group['time']:\<close> is false for it: \<^verbatim>\<open>add_line\<close> updates the four
  counting statistics only, and the fastest page stays empty, where feeding it would
  have recorded the page with the time 0.
\<close>

theorem zero_time_not_fed:
  \<open>parse strptime_date
     ''192.168.74.83 - - [08/Jul/2012:06:31:57 +0600] "GET /img/graph.png HTTP/1.1" 304 211 "http://callider/menu-top.php" "Mozilla/5.0 (compatible; MSIE 9.0; Windows NT 6.1; WOW64; Trident/5.0)" 0''
     = Inr (Some (graph_group\<lparr>group_time := Some 0\<rparr>))
   \<and> add_line strptime_date make_stat
     ''192.168.74.83 - - [08/Jul/2012:06:31:57 +0600] "GET /img/graph.png HTTP/1.1" 304 211 "http://callider/menu-top.php" "Mozilla/5.0 (compatible; MSIE 9.0; Windows NT 6.1; WOW64; Trident/5.0)" 0''
     = (None, make_stat
         \<lparr>most_popular_page := [(''/img/graph.png'', 1)],
          most_active_client := [(''192.168.74.83'', 1)],
          most_popular_browser :=
            [(''Mozilla/5.0 (compatible; MSIE 9.0; Windows NT 6.1; WOW64; Trident/5.0)'', 1)],
          most_active_client_by_day :=
            \<lparr>by_day_date = \<lparr>year = 2012, month = 7, day = 8\<rparr>,
             by_day_clients = [(''192.168.74.83'', 1)]\<rparr>\<rparr>)
   \<and> fastest_page (snd (add_line strptime_date make_stat
     ''192.168.74.83 - - [08/Jul/2012:06:31:57 +0600] "GET /img/graph.png HTTP/1.1" 304 211 "http://callider/menu-top.php" "Mozilla/5.0 (compatible; MSIE 9.0; Windows NT 6.1; WOW64; Trident/5.0)" 0''))
     = FastestPageStat_init
   \<and> FastestPageStat_update FastestPageStat_init 0 ''/img/graph.png''
     = \<lparr>min_time = 0, fastest_value = ''/img/graph.png''\<rparr>\<close>
proof -
  have r: \<open>render zero_time_line =
     ''192.168.74.83 - - [08/Jul/2012:06:31:57 +0600] "GET /img/graph.png HTTP/1.1" 304 211 "http://callider/menu-top.php" "Mozilla/5.0 (compatible; MSIE 9.0; Windows NT 6.1; WOW64; Trident/5.0)" 0''\<close>
    by (simp add: render_def zero_time_line_def graph_line_def ll_address_def dquote_def)
  have p: "parse strptime_date (render zero_time_line) =
      Inr (Some (graph_group\<lparr>group_time := Some 0\<rparr>))"
    by (simp add: parse_render[OF well_formed_zero_time_line])
       (simp add: zero_time_line_def graph_line_def graph_group_def strptime_graph_line
          py_int_123 ll_address_def)
  have u: "Statistics_update make_stat (graph_group\<lparr>group_time := Some 0\<rparr>) =
      (None, counted_updates make_stat (graph_group\<lparr>group_time := Some 0\<rparr>))"
    by (rule Statistics_update_zero_time) simp
  have c: "counted_updates make_stat (graph_group\<lparr>group_time := Some 0\<rparr>) =
      make_stat
         \<lparr>most_popular_page := [(''/img/graph.png'', 1)],
          most_active_client := [(''192.168.74.83'', 1)],
          most_popular_browser :=
            [(''Mozilla/5.0 (compatible; MSIE 9.0; Windows NT 6.1; WOW64; Trident/5.0)'', 1)],
          most_active_client_by_day :=
            \<lparr>by_day_date = \<lparr>year = 2012, month = 7, day = 8\<rparr>,
             by_day_clients = [(''192.168.74.83'', 1)]\<rparr>\<rparr>"
    by (simp add: counted_updates_def make_stat_def graph_group_def
        MostPopularPageStat_update_def MostActiveClientStat_update_def
        MostPopularBrowserStat_update_def MostActiveClientByDayStat_update_def
        MostActiveClientByDayStat_init_def counter_inc_def defaultdict_get_def)
  have a: "add_line strptime_date make_stat (render zero_time_line) =
      (None, counted_updates make_stat (graph_group\<lparr>group_time := Some 0\<rparr>))"
    by (simp add: add_line_def p u)
  have f: "FastestPageStat_update FastestPageStat_init 0 ''/img/graph.png''
     = \<lparr>min_time = 0, fastest_value = ''/img/graph.png''\<rparr>"
    by (simp add: FastestPageStat_update_def FastestPageStat_init_def)
  show ?thesis
    using p a f unfolding r c by (simp add: make_stat_def)
qed

end
